theory Spec2Isabelle
  imports Complex_Main "HOL-Library.Multiset"
begin

section \<open>Shared enumerations and errors\<close>

text \<open>
  \<^verbatim>\<open>Role\<close> and \<^verbatim>\<open>DonationState\<close> are declared, member for member alike, in
  \<^verbatim>\<open>state_machine.py\<close> and in \<^verbatim>\<open>models_repo.py\<close>. Both are \<^verbatim>\<open>(str, Enum)\<close> classes, so a
  member compares and hashes as its string value and the plain strings that \<^verbatim>\<open>api_app.py\<close>
  passes (\<^verbatim>\<open>"matched"\<close>, \<^verbatim>\<open>"pickup_scheduled"\<close>) denote the members of the same name.
\<close>

datatype Role = DONOR | RECIPIENT | VOLUNTEER | ADMIN

datatype DonationState =
  POSTED | MATCHED | PICKUP_SCHEDULED | IN_TRANSIT | DELIVERED | CANCELLED | EXPIRED

text \<open>
  Every \<^verbatim>\<open>raise\<close> of the modelled functions, explicit or from an operation that fails, is
  one constructor:
  \<^item> \<open>DonationNotFound\<close>: \<^verbatim>\<open>ValueError("Donation not found")\<close> of \<^verbatim>\<open>transition_state\<close>;
  \<^item> \<open>InvalidTransition old new\<close>:
    \<^verbatim>\<open>ValueError(f"Invalid transition from {old_state} to {new_state}")\<close>;
  \<^item> \<open>ValidationError\<close>: the pydantic error of \<^verbatim>\<open>AuditLogEntry(...)\<close> for an \<^verbatim>\<open>actor_role\<close>
    that is not the value of a \<^verbatim>\<open>Role\<close> member;
  \<^item> \<open>KeyErrorDonation\<close>, \<open>KeyErrorRecipient\<close>: the \<^verbatim>\<open>KeyError\<close> of \<^verbatim>\<open>update_donation\<close> and
    \<^verbatim>\<open>update_recipient\<close>;
  \<^item> \<open>VolunteerMissing\<close>: \<^verbatim>\<open>ValueError("Volunteer missing or has no location")\<close>;
  \<^item> \<open>DonationMissing did\<close>: \<^verbatim>\<open>ValueError(f"Donation {did} missing or has no location")\<close>;
  \<^item> \<open>AttributeErrorNone\<close>: reading \<^verbatim>\<open>.id\<close> of \<^verbatim>\<open>None\<close> in \<^verbatim>\<open>plan_pickup\<close>;
  \<^item> \<open>KeyErrorCoordinates\<close>: \<^verbatim>\<open>location["coordinates"]\<close> on a dict without that key;
  \<^item> \<open>KeyErrorIndex i\<close>: a dict subscripted with the integer \<open>i\<close>;
  \<^item> \<open>TypeError\<close>: a subscript on \<^verbatim>\<open>None\<close> or a number, or arithmetic on a value that is
    not a number;
  \<^item> \<open>IndexError\<close>: a list or string subscripted past its end;
  \<^item> \<open>MathDomainError\<close>: \<^verbatim>\<open>ValueError("math domain error")\<close> of \<^verbatim>\<open>math.sqrt\<close>.
\<close>

datatype error =
    DonationNotFound
  | InvalidTransition DonationState DonationState
  | ValidationError
  | KeyErrorDonation
  | KeyErrorRecipient
  | VolunteerMissing
  | DonationMissing string
  | AttributeErrorNone
  | KeyErrorCoordinates
  | KeyErrorIndex nat
  | TypeError
  | IndexError
  | MathDomainError

section \<open>Dictionaries keyed by the stored object's own id\<close>

text \<open>
  The repositories keep their entities in Python dicts, and every write in the source has
  the form \<^verbatim>\<open>self.donations[d.id] = d\<close>: the key is the id field of the value. Such a dict
  is the list of its values in insertion order (the order \<^verbatim>\<open>.values()\<close> iterates in), and
  the key of a value is read off the value. \<open>dict_put\<close> is \<^verbatim>\<open>dict[key(v)] = v\<close>: an existing
  key keeps its position, a new key goes last.
\<close>

fun dict_get :: "('a \<Rightarrow> string) \<Rightarrow> 'a list \<Rightarrow> string \<Rightarrow> 'a option" where
  "dict_get key [] k = None"
| "dict_get key (x # xs) k = (if key x = k then Some x else dict_get key xs k)"

fun dict_put :: "('a \<Rightarrow> string) \<Rightarrow> 'a \<Rightarrow> 'a list \<Rightarrow> 'a list" where
  "dict_put key v [] = [v]"
| "dict_put key v (x # xs) = (if key x = key v then v # xs else x # dict_put key v xs)"

definition dict_has :: "('a \<Rightarrow> string) \<Rightarrow> 'a list \<Rightarrow> string \<Rightarrow> bool" where
  "dict_has key xs k = (k \<in> set (map key xs))"

section \<open>state\_machine.py\<close>

text \<open>
  The module has its own \<^verbatim>\<open>Donation\<close> model (five fields), its own \<^verbatim>\<open>InMemoryRepo\<close> class and
  its own module-level instance \<^verbatim>\<open>repo = InMemoryRepo()\<close>. The \<^verbatim>\<open>id\<close> (a fresh uuid) and the
  \<^verbatim>\<open>timestamp\<close> (the clock) of an audit entry are not modelled. The \<^verbatim>\<open>users\<close> dict maps a
  user id to \<^verbatim>\<open>{"id": user_id, "role": role}\<close> and \<^verbatim>\<open>add_user\<close> stores whatever string it is
  given as the role; it is kept as the map from the id to that string. The \<^verbatim>\<open>audit_logs\<close>
  dict maps a donation id to the list of its entries in creation order.
\<close>

record SM_Donation =
  sd_id :: string
  sd_donor_id :: "string option"
  sd_state :: DonationState
  sd_matched_recipient_id :: "string option"
  sd_pickup_id :: "string option"

record AuditLogEntry =
  log_donation_id :: string
  log_actor_user_id :: "string option"
  log_actor_role :: "Role option"
  log_old_state :: "DonationState option"
  log_new_state :: DonationState
  log_notes :: "string option"

record SM_Repo =
  sm_donations :: "SM_Donation list"
  sm_users :: "string \<rightharpoonup> string"
  sm_audit_logs :: "string \<rightharpoonup> AuditLogEntry list"

definition sm_get_donation :: "SM_Repo \<Rightarrow> string \<Rightarrow> SM_Donation option" where
  "sm_get_donation r did = dict_get sd_id (sm_donations r) did"

definition sm_add_donation :: "SM_Donation \<Rightarrow> SM_Repo \<Rightarrow> SM_Repo" where
  "sm_add_donation d r = r\<lparr>sm_donations := dict_put sd_id d (sm_donations r)\<rparr>"

definition sm_update_donation :: "SM_Donation \<Rightarrow> SM_Repo \<Rightarrow> error + SM_Repo" where
  "sm_update_donation d r =
     (if \<not> dict_has sd_id (sm_donations r) (sd_id d) then Inl KeyErrorDonation
      else Inr (r\<lparr>sm_donations := dict_put sd_id d (sm_donations r)\<rparr>))"

definition sm_add_user :: "string \<Rightarrow> string \<Rightarrow> SM_Repo \<Rightarrow> SM_Repo" where
  "sm_add_user uid role r = r\<lparr>sm_users := (sm_users r)(uid \<mapsto> role)\<rparr>"

definition sm_get_user :: "SM_Repo \<Rightarrow> string \<Rightarrow> string option" where
  "sm_get_user r uid = sm_users r uid"

definition sm_get_audit_logs_for_donation :: "SM_Repo \<Rightarrow> string \<Rightarrow> AuditLogEntry list" where
  "sm_get_audit_logs_for_donation r did =
     (case sm_audit_logs r did of None \<Rightarrow> [] | Some l \<Rightarrow> l)"

definition sm_add_audit_log :: "AuditLogEntry \<Rightarrow> SM_Repo \<Rightarrow> SM_Repo" where
  "sm_add_audit_log entry r =
     r\<lparr>sm_audit_logs := (sm_audit_logs r)
          (log_donation_id entry \<mapsto>
             (case sm_audit_logs r (log_donation_id entry) of None \<Rightarrow> [] | Some l \<Rightarrow> l)
             @ [entry])\<rparr>"

fun ALLOWED_TRANSITIONS :: "DonationState \<Rightarrow> DonationState set" where
  "ALLOWED_TRANSITIONS POSTED = {MATCHED, CANCELLED, EXPIRED}"
| "ALLOWED_TRANSITIONS MATCHED = {PICKUP_SCHEDULED, CANCELLED, EXPIRED}"
| "ALLOWED_TRANSITIONS PICKUP_SCHEDULED = {IN_TRANSIT, CANCELLED}"
| "ALLOWED_TRANSITIONS IN_TRANSIT = {DELIVERED, CANCELLED}"
| "ALLOWED_TRANSITIONS DELIVERED = {}"
| "ALLOWED_TRANSITIONS CANCELLED = {}"
| "ALLOWED_TRANSITIONS EXPIRED = {}"

text \<open>
  \<^verbatim>\<open>repo.get_user(actor_user_id)["role"] if actor_user_id and repo.get_user(actor_user_id)
  else None\<close>: an absent and an empty actor id are both falsy. The value is the stored
  string.
\<close>

definition actor_role_of :: "SM_Repo \<Rightarrow> string option \<Rightarrow> string option" where
  "actor_role_of r actor_user_id =
     (case actor_user_id of
        None \<Rightarrow> None
      | Some u \<Rightarrow> if u = [] then None else sm_get_user r u)"

text \<open>
  The field \<^verbatim>\<open>actor_role: Optional[Role]\<close> of \<^verbatim>\<open>AuditLogEntry\<close>: the constructor accepts
  \<^verbatim>\<open>None\<close> and the value of a \<^verbatim>\<open>Role\<close> member, which it turns into the member, and raises for
  any other string.
\<close>

definition role_of_value :: "string \<Rightarrow> Role option" where
  "role_of_value s =
     (if s = ''donor'' then Some DONOR
      else if s = ''recipient'' then Some RECIPIENT
      else if s = ''volunteer'' then Some VOLUNTEER
      else if s = ''admin'' then Some ADMIN
      else None)"

definition validate_role :: "string option \<Rightarrow> error + Role option" where
  "validate_role actor_role =
     (case actor_role of
        None \<Rightarrow> Inr None
      | Some s \<Rightarrow>
          (case role_of_value s of
             None \<Rightarrow> Inl ValidationError
           | Some role \<Rightarrow> Inr (Some role)))"

text \<open>
  The call \<^verbatim>\<open>AuditLogEntry(donation_id=..., actor_user_id=..., actor_role=..., old_state=...,
  new_state=..., notes=...)\<close>. The other arguments are of the types their fields declare at
  both call sites.
\<close>

definition new_AuditLogEntry ::
  "string \<Rightarrow> string option \<Rightarrow> string option \<Rightarrow> DonationState option \<Rightarrow> DonationState
     \<Rightarrow> string option \<Rightarrow> error + AuditLogEntry" where
  "new_AuditLogEntry donation_id actor_user_id actor_role old_state new_state notes =
     (case validate_role actor_role of
        Inl e \<Rightarrow> Inl e
      | Inr role \<Rightarrow>
          Inr \<lparr>log_donation_id = donation_id, log_actor_user_id = actor_user_id,
               log_actor_role = role, log_old_state = old_state,
               log_new_state = new_state, log_notes = notes\<rparr>)"

text \<open>\<^verbatim>\<open>notes or "idempotent transition"\<close>: \<^verbatim>\<open>None\<close> and the empty string are both falsy.\<close>

definition notes_or_idempotent :: "string option \<Rightarrow> string option" where
  "notes_or_idempotent notes =
     (case notes of
        None \<Rightarrow> Some ''idempotent transition''
      | Some n \<Rightarrow> if n = [] then Some ''idempotent transition'' else Some n)"

text \<open>
  \<^verbatim>\<open>transition_state\<close> returns the donation or raises; the repository it leaves behind is
  returned in both cases. \<^verbatim>\<open>d.state = new_state\<close> writes to the object the dict holds, so the
  repository has the new state before \<^verbatim>\<open>update_donation\<close> is called, and keeps it when the
  construction of the audit entry raises afterwards.
\<close>

definition transition_state ::
  "SM_Repo \<Rightarrow> string \<Rightarrow> DonationState \<Rightarrow> string option \<Rightarrow> string option
     \<Rightarrow> (error + SM_Donation) \<times> SM_Repo" where
  "transition_state r did new_state actor_user_id notes =
     (case sm_get_donation r did of
        None \<Rightarrow> (Inl DonationNotFound, r)
      | Some d \<Rightarrow>
          let old_state = sd_state d in
          if new_state = old_state then
            (case new_AuditLogEntry (sd_id d) actor_user_id (actor_role_of r actor_user_id)
                    (Some old_state) new_state (notes_or_idempotent notes) of
               Inl e \<Rightarrow> (Inl e, r)
             | Inr entry \<Rightarrow> (Inr d, sm_add_audit_log entry r))
          else if new_state \<notin> ALLOWED_TRANSITIONS old_state then
            (Inl (InvalidTransition old_state new_state), r)
          else
            let d' = d\<lparr>sd_state := new_state\<rparr>;
                r1 = r\<lparr>sm_donations := dict_put sd_id d' (sm_donations r)\<rparr>
            in (case sm_update_donation d' r1 of
                  Inl e \<Rightarrow> (Inl e, r1)
                | Inr r2 \<Rightarrow>
                    (case new_AuditLogEntry (sd_id d') actor_user_id
                            (actor_role_of r2 actor_user_id) (Some old_state) new_state notes of
                       Inl e \<Rightarrow> (Inl e, r2)
                     | Inr entry \<Rightarrow> (Inr d', sm_add_audit_log entry r2))))"

section \<open>models\_repo.py\<close>

text \<open>
  A location is a Python dict or \<^verbatim>\<open>None\<close>. \<^verbatim>\<open>Donation.location\<close> is declared
  \<^verbatim>\<open>Optional[Dict[str, Any]]\<close>, \<^verbatim>\<open>User.location\<close> and \<^verbatim>\<open>Recipient.location\<close> are declared
  \<^verbatim>\<open>Optional[Dict[str, float]]\<close> under the comment
  \<^verbatim>\<open># GeoJSON: {"type":"Point","coordinates":[lon,lat]}\<close>; the constructors check the
  declaration, an assignment to the attribute does not. The values of such a dict are
  modelled as the values JSON has: \<^verbatim>\<open>None\<close>, a number (floats are idealised as reals, and a
  boolean is the number it equals), a string, a list, a dict with string keys. A dict is the
  list of its items, read with \<open>map_of\<close>.

  The fields \<^verbatim>\<open>items\<close>, \<^verbatim>\<open>posted_at\<close>, \<^verbatim>\<open>pickup_by\<close> and \<^verbatim>\<open>metadata\<close>, which no modelled function
  reads, are left out, as are the \<^verbatim>\<open>transactions\<close> and \<^verbatim>\<open>audit_logs\<close> dicts of this
  repository, which no modelled function touches. A \<^verbatim>\<open>datetime\<close> is a natural number.
\<close>

datatype json =
    JNull
  | JNum real
  | JStr string
  | JList "json list"
  | JObj "(string \<times> json) list"

type_synonym location = "(string \<times> json) list"

record User =
  user_id :: string
  user_name :: string
  user_role :: Role
  user_phone :: "string option"
  user_location :: "location option"

record Donation =
  don_id :: string
  don_donor_id :: string
  don_total_weight_kg :: real
  don_location :: "location option"
  don_state :: DonationState
  don_matched_recipient_id :: "string option"
  don_pickup_id :: "string option"

record Recipient =
  rcp_id :: string
  rcp_name :: string
  rcp_capacity_kg :: real
  rcp_location :: "location option"
  rcp_contact :: "string option"

text \<open>
  \<^verbatim>\<open>Pickup.route_order\<close> is declared \<^verbatim>\<open>List[Tuple[float, float]]\<close>. The only Pickup the modelled
  code constructs gets the list that \<^verbatim>\<open>plan_route_local\<close> returned, whose entries are pairs of
  numbers (lemma \<open>plan_route_local_numbers\<close> below), which the constructor accepts as they
  are.
\<close>

record Pickup =
  pk_id :: string
  pk_volunteer_id :: "string option"
  pk_donation_ids :: "string list"
  pk_route_order :: "(json \<times> json) list"
  pk_scheduled_for :: "nat option"
  pk_status :: string

record Repo =
  users :: "User list"
  donations :: "Donation list"
  recipients :: "Recipient list"
  pickups :: "Pickup list"

definition add_user :: "User \<Rightarrow> Repo \<Rightarrow> Repo" where
  "add_user u r = r\<lparr>users := dict_put user_id u (users r)\<rparr>"

definition get_user :: "Repo \<Rightarrow> string \<Rightarrow> User option" where
  "get_user r uid = dict_get user_id (users r) uid"

definition add_donation :: "Donation \<Rightarrow> Repo \<Rightarrow> Repo" where
  "add_donation d r = r\<lparr>donations := dict_put don_id d (donations r)\<rparr>"

definition get_donation :: "Repo \<Rightarrow> string \<Rightarrow> Donation option" where
  "get_donation r did = dict_get don_id (donations r) did"

definition update_donation :: "Donation \<Rightarrow> Repo \<Rightarrow> error + Repo" where
  "update_donation d r =
     (if \<not> dict_has don_id (donations r) (don_id d) then Inl KeyErrorDonation
      else Inr (r\<lparr>donations := dict_put don_id d (donations r)\<rparr>))"

definition list_open_donations :: "Repo \<Rightarrow> Donation list" where
  "list_open_donations r = filter (\<lambda>d. don_state d = POSTED) (donations r)"

definition add_recipient :: "Recipient \<Rightarrow> Repo \<Rightarrow> Repo" where
  "add_recipient x r = r\<lparr>recipients := dict_put rcp_id x (recipients r)\<rparr>"

definition list_recipients :: "Repo \<Rightarrow> Recipient list" where
  "list_recipients r = recipients r"

definition update_recipient :: "Recipient \<Rightarrow> Repo \<Rightarrow> error + Repo" where
  "update_recipient x r =
     (if \<not> dict_has rcp_id (recipients r) (rcp_id x) then Inl KeyErrorRecipient
      else Inr (r\<lparr>recipients := dict_put rcp_id x (recipients r)\<rparr>))"

definition get_recipient :: "Repo \<Rightarrow> string \<Rightarrow> Recipient option" where
  "get_recipient r rid = dict_get rcp_id (recipients r) rid"

definition add_pickup :: "Pickup \<Rightarrow> Repo \<Rightarrow> Repo" where
  "add_pickup p r = r\<lparr>pickups := dict_put pk_id p (pickups r)\<rparr>"

definition get_pickup :: "Repo \<Rightarrow> string \<Rightarrow> Pickup option" where
  "get_pickup r pid = dict_get pk_id (pickups r) pid"

section \<open>api\_app.py\<close>

text \<open>
  \<^verbatim>\<open>api_app.py\<close> takes \<^verbatim>\<open>repo\<close> from \<^verbatim>\<open>models_repo\<close> and \<^verbatim>\<open>transition_state\<close> from
  \<^verbatim>\<open>state_machine\<close>; both modules are in the repository, so neither import falls back to the
  local definitions of the \<^verbatim>\<open>except\<close> branches. \<^verbatim>\<open>matching\<close> and \<^verbatim>\<open>routing\<close> are not in the
  repository, so \<^verbatim>\<open>ext_greedy_match\<close> and \<^verbatim>\<open>ext_plan_route\<close> are \<^verbatim>\<open>None\<close> and the endpoints run
  \<^verbatim>\<open>greedy_match_local\<close> and \<^verbatim>\<open>plan_route_local\<close>. The state of the application is therefore
  two repositories: \<open>repo\<close>, the instance of \<^verbatim>\<open>models_repo\<close> that the endpoints read and write,
  and \<open>sm_repo\<close>, the instance of \<^verbatim>\<open>state_machine\<close> that \<^verbatim>\<open>transition_state\<close> reads and writes.
\<close>

record App =
  repo :: Repo
  sm_repo :: SM_Repo

text \<open>
  \<^verbatim>\<open>not x\<close> for a location \<open>x\<close>: \<^verbatim>\<open>None\<close> and the empty dict are falsy.
\<close>

definition truthy :: "location option \<Rightarrow> bool" where
  "truthy loc = (case loc of None \<Rightarrow> False | Some items \<Rightarrow> items \<noteq> [])"

text \<open>
  \<^verbatim>\<open>v[i]\<close> for a non-negative integer \<open>i\<close>. A string gives the one-character string at
  \<open>i\<close>; a dict with string keys has no integer key.
\<close>

fun subscript :: "json \<Rightarrow> nat \<Rightarrow> error + json" where
  "subscript JNull i = Inl TypeError"
| "subscript (JNum x) i = Inl TypeError"
| "subscript (JStr s) i = (if i < length s then Inr (JStr [s ! i]) else Inl IndexError)"
| "subscript (JList xs) i = (if i < length xs then Inr (xs ! i) else Inl IndexError)"
| "subscript (JObj items) i = Inl (KeyErrorIndex i)"

text \<open>\<^verbatim>\<open>x.location["coordinates"][i]\<close>.\<close>

definition coordinate :: "location option \<Rightarrow> nat \<Rightarrow> error + json" where
  "coordinate loc i =
     (case loc of
        None \<Rightarrow> Inl TypeError
      | Some items \<Rightarrow>
          (case map_of items ''coordinates'' of
             None \<Rightarrow> Inl KeyErrorCoordinates
           | Some c \<Rightarrow> subscript c i))"

text \<open>
  The pair of reads \<^verbatim>\<open>x.location["coordinates"][1]\<close>, \<^verbatim>\<open>x.location["coordinates"][0]\<close>, in
  this order, with which the source takes the latitude and the longitude of a location
  every time.
\<close>

definition lat_lon :: "location option \<Rightarrow> error + json \<times> json" where
  "lat_lon loc =
     (case coordinate loc 1 of
        Inl e \<Rightarrow> Inl e
      | Inr lat \<Rightarrow>
          (case coordinate loc 0 of
             Inl e \<Rightarrow> Inl e
           | Inr lon \<Rightarrow> Inr (lat, lon)))"

definition radians :: "real \<Rightarrow> real" where
  "radians x = x * pi / 180"

definition atan2 :: "real \<Rightarrow> real \<Rightarrow> real" where
  "atan2 y x =
     (if 0 < x then arctan (y / x)
      else if x < 0 \<and> 0 \<le> y then arctan (y / x) + pi
      else if x < 0 then arctan (y / x) - pi
      else if 0 < y then pi / 2
      else if y < 0 then - (pi / 2)
      else 0)"

definition math_sqrt :: "real \<Rightarrow> error + real" where
  "math_sqrt x = (if x < 0 then Inl MathDomainError else Inr (sqrt x))"

text \<open>The value of an argument of \<^verbatim>\<open>math.radians\<close> or of a subtraction, if it is a number.\<close>

fun number :: "json \<Rightarrow> real option" where
  "number (JNum x) = Some x"
| "number JNull = None"
| "number (JStr s) = None"
| "number (JList xs) = None"
| "number (JObj items) = None"

text \<open>
  \<^verbatim>\<open>haversine_distance\<close>. \<^verbatim>\<open>math.radians\<close> and the subtractions raise \<^verbatim>\<open>TypeError\<close> for an
  argument that is not a number. The arithmetic is that of the reals: rounding is not
  modelled, so \<^verbatim>\<open>math.sqrt\<close> raises here only where the exact value of its argument is
  negative, while the float code can also raise where rounding has pushed \<^verbatim>\<open>a\<close> above 1
  (two nearly antipodal points). No theorem below concludes that a distance is returned
  except at two equal points, where the float code computes \<^verbatim>\<open>a = 0.0\<close> as well.
\<close>

definition haversine_distance :: "json \<Rightarrow> json \<Rightarrow> json \<Rightarrow> json \<Rightarrow> error + real" where
  "haversine_distance lat1 lon1 lat2 lon2 =
     (case (number lat1, number lon1, number lat2, number lon2) of
        (Some lat1, Some lon1, Some lat2, Some lon2) \<Rightarrow>
          (let R = 6371;
               phi1 = radians lat1; phi2 = radians lat2;
               dphi = radians (lat2 - lat1); dl = radians (lon2 - lon1);
               a = (sin (dphi / 2))\<^sup>2 + cos phi1 * cos phi2 * (sin (dl / 2))\<^sup>2
           in case math_sqrt a of
                Inl e \<Rightarrow> Inl e
              | Inr sa \<Rightarrow>
                  (case math_sqrt (1 - a) of
                     Inl e \<Rightarrow> Inl e
                   | Inr sb \<Rightarrow> Inr (R * 2 * atan2 sa sb)))
      | _ \<Rightarrow> Inl TypeError)"

text \<open>
  The inner \<^verbatim>\<open>for r in repo.list_recipients()\<close> loop that fills \<^verbatim>\<open>candidates\<close>; an exception
  in the body leaves the loop.
\<close>

fun collect_candidates ::
  "real \<Rightarrow> real \<Rightarrow> json \<Rightarrow> json \<Rightarrow> Recipient list \<Rightarrow> error + (real \<times> Recipient) list" where
  "collect_candidates max_search_km need d_lat d_lon [] = Inr []"
| "collect_candidates max_search_km need d_lat d_lon (r # rs) =
     (if rcp_capacity_kg r \<ge> need \<and> truthy (rcp_location r) then
        (case lat_lon (rcp_location r) of
           Inl e \<Rightarrow> Inl e
         | Inr (r_lat, r_lon) \<Rightarrow>
             (case haversine_distance d_lat d_lon r_lat r_lon of
                Inl e \<Rightarrow> Inl e
              | Inr distance \<Rightarrow>
                  (case collect_candidates max_search_km need d_lat d_lon rs of
                     Inl e \<Rightarrow> Inl e
                   | Inr candidates \<Rightarrow>
                       Inr (if distance \<le> max_search_km then (distance, r) # candidates
                            else candidates))))
      else collect_candidates max_search_km need d_lat d_lon rs)"

text \<open>
  The body of the \<^verbatim>\<open>for d in donations\<close> loop, for one donation \<open>d\<close> of the list taken at the
  start of the run. \<^verbatim>\<open>d.matched_recipient_id = chosen.id\<close> and \<^verbatim>\<open>chosen.capacity_kg -= need\<close>
  write to the objects the dicts hold, before \<^verbatim>\<open>update_donation\<close> and \<^verbatim>\<open>update_recipient\<close> are
  called; \<open>dict_put\<close> at the object's id is that write. An exception leaves the loop and the
  function with the state reached so far.
\<close>

definition match_donation ::
  "real \<Rightarrow> Donation \<Rightarrow> App \<Rightarrow> (string \<times> string) list
     \<Rightarrow> (error + (string \<times> string) list) \<times> App" where
  "match_donation max_search_km d st assigned =
     (if \<not> truthy (don_location d) then (Inr assigned, st)
      else
        (case lat_lon (don_location d) of
           Inl e \<Rightarrow> (Inl e, st)
         | Inr (d_lat, d_lon) \<Rightarrow>
             let need = don_total_weight_kg d in
             (case collect_candidates max_search_km need d_lat d_lon
                     (list_recipients (repo st)) of
                Inl e \<Rightarrow> (Inl e, st)
              | Inr candidates \<Rightarrow>
                  if candidates = [] then (Inr assigned, st)
                  else
                    let chosen = snd (hd (sort_key fst candidates));
                        d1 = d\<lparr>don_matched_recipient_id := Some (rcp_id chosen)\<rparr>;
                        st1 = st\<lparr>repo := (repo st)\<lparr>donations :=
                                            dict_put don_id d1 (donations (repo st))\<rparr>\<rparr>
                    in (case transition_state (sm_repo st1) (don_id d1) MATCHED None
                               (Some ''auto-match'') of
                          (Inl e, sm1) \<Rightarrow> (Inl e, st1\<lparr>sm_repo := sm1\<rparr>)
                        | (Inr _, sm1) \<Rightarrow>
                            let st2 = st1\<lparr>sm_repo := sm1\<rparr> in
                            (case update_donation d1 (repo st2) of
                               Inl e \<Rightarrow> (Inl e, st2)
                             | Inr r3 \<Rightarrow>
                                 let chosen1 = chosen\<lparr>rcp_capacity_kg :=
                                                         rcp_capacity_kg chosen - need\<rparr>;
                                     r4 = r3\<lparr>recipients :=
                                              dict_put rcp_id chosen1 (recipients r3)\<rparr>
                                 in (case update_recipient chosen1 r4 of
                                       Inl e \<Rightarrow> (Inl e, st2\<lparr>repo := r4\<rparr>)
                                     | Inr r5 \<Rightarrow>
                                         (Inr (assigned @ [(don_id d1, rcp_id chosen)]),
                                          st2\<lparr>repo := r5\<rparr>)))))))"

fun match_loop ::
  "real \<Rightarrow> Donation list \<Rightarrow> App \<Rightarrow> (string \<times> string) list
     \<Rightarrow> (error + (string \<times> string) list) \<times> App" where
  "match_loop max_search_km [] st assigned = (Inr assigned, st)"
| "match_loop max_search_km (d # ds) st assigned =
     (case match_donation max_search_km d st assigned of
        (Inl e, st1) \<Rightarrow> (Inl e, st1)
      | (Inr assigned1, st1) \<Rightarrow> match_loop max_search_km ds st1 assigned1)"

definition greedy_match_local ::
  "real \<Rightarrow> App \<Rightarrow> (error + (string \<times> string) list) \<times> App" where
  "greedy_match_local max_search_km st =
     match_loop max_search_km (list_open_donations (repo st)) st []"

text \<open>The \<^verbatim>\<open>for did in donation_ids\<close> loop of \<^verbatim>\<open>plan_route_local\<close> that fills \<^verbatim>\<open>points\<close>.\<close>

fun collect_points :: "Repo \<Rightarrow> string list \<Rightarrow> error + (json \<times> json) list" where
  "collect_points r [] = Inr []"
| "collect_points r (did # dids) =
     (case get_donation r did of
        None \<Rightarrow> Inl (DonationMissing did)
      | Some d \<Rightarrow>
          if \<not> truthy (don_location d) then Inl (DonationMissing did)
          else
            (case lat_lon (don_location d) of
               Inl e \<Rightarrow> Inl e
             | Inr point \<Rightarrow>
                 (case collect_points r dids of
                    Inl e \<Rightarrow> Inl e
                  | Inr points \<Rightarrow> Inr (point # points))))"

text \<open>
  The list comprehension \<^verbatim>\<open>[(haversine_distance(current[0], current[1], p[0], p[1]), p)
  for p in remaining]\<close>.
\<close>

fun distances_from ::
  "json \<times> json \<Rightarrow> (json \<times> json) list \<Rightarrow> error + (real \<times> json \<times> json) list" where
  "distances_from current [] = Inr []"
| "distances_from current (p # ps) =
     (case haversine_distance (fst current) (snd current) (fst p) (snd p) of
        Inl e \<Rightarrow> Inl e
      | Inr distance \<Rightarrow>
          (case distances_from current ps of
             Inl e \<Rightarrow> Inl e
           | Inr distances \<Rightarrow> Inr ((distance, p) # distances)))"

text \<open>
  The \<^verbatim>\<open>while remaining\<close> loop. \<^verbatim>\<open>list.sort\<close> is stable, as \<open>sort_key\<close> is, and
  \<^verbatim>\<open>remaining.remove(nearest)\<close> removes the first equal element, as \<open>remove1\<close> does; the
  points compared there are pairs of numbers, the distances having been computed.
\<close>

function route_loop ::
  "(json \<times> json) list \<Rightarrow> json \<times> json \<Rightarrow> (json \<times> json) list
     \<Rightarrow> error + (json \<times> json) list" where
  "route_loop order current remaining =
     (if remaining = [] then Inr order
      else
        (case distances_from current remaining of
           Inl e \<Rightarrow> Inl e
         | Inr distances \<Rightarrow>
             let nearest = snd (hd (sort_key fst distances))
             in route_loop (order @ [nearest]) nearest (remove1 nearest remaining)))"
  by pat_completeness auto
termination
proof (relation "measure (\<lambda>(order, current, remaining). length remaining)")
  show "wf (measure (\<lambda>(order, current, remaining). length remaining))"
    by simp
next
  fix order :: "(json \<times> json) list" and current :: "json \<times> json"
    and remaining :: "(json \<times> json) list" and distances nearest
  assume ne: "remaining \<noteq> []"
    and ds: "distances_from current remaining = Inr distances"
    and nr: "nearest = snd (hd (sort_key fst distances))"
  have "map snd ds' = ps" if "distances_from current ps = Inr ds'" for ps ds'
    using that by (induction ps arbitrary: ds') (auto split: sum.splits)
  with ds have sn: "map snd distances = remaining"
    by simp
  with ne have "sort_key fst distances \<noteq> []"
    by (metis length_0_conv length_map length_sort)
  then have "hd (sort_key fst distances) \<in> set (sort_key fst distances)"
    by (rule hd_in_set)
  then have "hd (sort_key fst distances) \<in> set distances"
    by simp
  then have "snd (hd (sort_key fst distances)) \<in> set (map snd distances)"
    by (simp add: image_iff) blast
  with sn nr have "nearest \<in> set remaining"
    by simp
  moreover from this have "0 < length remaining"
    by (rule length_pos_if_in_set)
  ultimately have "length (remove1 nearest remaining) < length remaining"
    by (simp add: length_remove1)
  then show "((order @ [nearest], nearest, remove1 nearest remaining),
              (order, current, remaining))
             \<in> measure (\<lambda>(order, current, remaining). length remaining)"
    by simp
qed

declare route_loop.simps [simp del]

definition plan_route_local ::
  "Repo \<Rightarrow> string \<Rightarrow> string list \<Rightarrow> error + (json \<times> json) list" where
  "plan_route_local r volunteer_id donation_ids =
     (case get_user r volunteer_id of
        None \<Rightarrow> Inl VolunteerMissing
      | Some v \<Rightarrow>
          if \<not> truthy (user_location v) then Inl VolunteerMissing
          else
            (case lat_lon (user_location v) of
               Inl e \<Rightarrow> Inl e
             | Inr (start_lat, start_lon) \<Rightarrow>
                 (case collect_points r donation_ids of
                    Inl e \<Rightarrow> Inl e
                  | Inr points \<Rightarrow> route_loop [] (start_lat, start_lon) points)))"

text \<open>
  The \<^verbatim>\<open>for did in req.donation_ids\<close> loop of the \<^verbatim>\<open>plan_pickup\<close> endpoint; \<open>pid\<close> is the id
  of the Pickup just stored. \<^verbatim>\<open>d.pickup_id = p.id\<close> writes to the object the dict holds.
\<close>

fun pickup_loop :: "string \<Rightarrow> string \<Rightarrow> string list \<Rightarrow> App \<Rightarrow> (error + unit) \<times> App" where
  "pickup_loop pid volunteer_id [] st = (Inr (), st)"
| "pickup_loop pid volunteer_id (did # dids) st =
     (case get_donation (repo st) did of
        None \<Rightarrow> (Inl AttributeErrorNone, st)
      | Some d \<Rightarrow>
          (case transition_state (sm_repo st) (don_id d) PICKUP_SCHEDULED (Some volunteer_id)
                  (Some (''pickup '' @ pid @ '' planned'')) of
             (Inl e, sm1) \<Rightarrow> (Inl e, st\<lparr>sm_repo := sm1\<rparr>)
           | (Inr _, sm1) \<Rightarrow>
               let d1 = d\<lparr>don_pickup_id := Some pid\<rparr>;
                   st1 = st\<lparr>sm_repo := sm1,
                            repo := (repo st)\<lparr>donations :=
                                      dict_put don_id d1 (donations (repo st))\<rparr>\<rparr>
               in (case update_donation d1 (repo st1) of
                     Inl e \<Rightarrow> (Inl e, st1)
                   | Inr r2 \<Rightarrow> pickup_loop pid volunteer_id dids (st1\<lparr>repo := r2\<rparr>))))"

text \<open>
  The \<^verbatim>\<open>plan_pickup\<close> endpoint. \<open>pid\<close> is the uuid the new Pickup gets and \<open>scheduled_for\<close>
  the time \<^verbatim>\<open>utcnow() + 30 minutes\<close>; the result is the triple of the response.
\<close>

definition plan_pickup ::
  "App \<Rightarrow> string \<Rightarrow> nat \<Rightarrow> string \<Rightarrow> string list
     \<Rightarrow> (error + string \<times> (json \<times> json) list \<times> nat) \<times> App" where
  "plan_pickup st pid scheduled_for volunteer_id donation_ids =
     (case plan_route_local (repo st) volunteer_id donation_ids of
        Inl e \<Rightarrow> (Inl e, st)
      | Inr ordered \<Rightarrow>
          let p = \<lparr>pk_id = pid, pk_volunteer_id = Some volunteer_id,
                   pk_donation_ids = donation_ids, pk_route_order = ordered,
                   pk_scheduled_for = Some scheduled_for, pk_status = ''scheduled''\<rparr>;
              st1 = st\<lparr>repo := add_pickup p (repo st)\<rparr>
          in (case pickup_loop pid volunteer_id donation_ids st1 of
                (Inl e, st2) \<Rightarrow> (Inl e, st2)
              | (Inr _, st2) \<Rightarrow> (Inr (pid, ordered, scheduled_for), st2)))"

text \<open>
  What the loop of \<^verbatim>\<open>plan_pickup\<close> leaves behind for a donation \<open>j\<close> it has processed:
  the donation of the endpoint's repository carries the pickup id, and the donation of the
  state machine's repository is in state \<^verbatim>\<open>pickup_scheduled\<close>.
\<close>

definition pickup_applied :: "string \<Rightarrow> App \<Rightarrow> string \<Rightarrow> bool" where
  "pickup_applied pid st j =
     ((case get_donation (repo st) j of
         None \<Rightarrow> False | Some dj \<Rightarrow> don_pickup_id dj = Some pid)
      \<and> (case sm_get_donation (sm_repo st) j of
           None \<Rightarrow> False | Some sj \<Rightarrow> sd_state sj = PICKUP_SCHEDULED))"

section \<open>Example states\<close>

text \<open>
  Concrete repositories on which the theorems below are exercised. \<open>point lon lat\<close> is the
  GeoJSON point of the comment in \<^verbatim>\<open>models_repo.py\<close>. The state machine's user store has a
  volunteer and a user whose role string is not the value of a \<^verbatim>\<open>Role\<close> member.
\<close>

definition point :: "real \<Rightarrow> real \<Rightarrow> location" where
  "point lon lat = [(''type'', JStr ''Point''), (''coordinates'', JList [JNum lon, JNum lat])]"

definition demo_sm_donation :: SM_Donation where
  "demo_sm_donation = \<lparr>sd_id = ''d1'', sd_donor_id = None, sd_state = POSTED,
     sd_matched_recipient_id = None, sd_pickup_id = None\<rparr>"

definition demo_sm_repo :: SM_Repo where
  "demo_sm_repo = \<lparr>sm_donations = [demo_sm_donation],
     sm_users = [''v1'' \<mapsto> ''volunteer'', ''x1'' \<mapsto> ''manager''],
     sm_audit_logs = Map.empty\<rparr>"

definition empty_sm_repo :: SM_Repo where
  "empty_sm_repo = \<lparr>sm_donations = [], sm_users = Map.empty, sm_audit_logs = Map.empty\<rparr>"

definition demo_donation :: Donation where
  "demo_donation = \<lparr>don_id = ''d1'', don_donor_id = ''u1'', don_total_weight_kg = 5,
     don_location = Some (point 121 14), don_state = POSTED, don_matched_recipient_id = None,
     don_pickup_id = None\<rparr>"

definition demo_recipient :: Recipient where
  "demo_recipient = \<lparr>rcp_id = ''r1'', rcp_name = ''Demo Pantry'', rcp_capacity_kg = 100,
     rcp_location = Some (point 121 14), rcp_contact = None\<rparr>"

definition demo_volunteer :: User where
  "demo_volunteer = \<lparr>user_id = ''v1'', user_name = ''Demo Volunteer'', user_role = VOLUNTEER,
     user_phone = None, user_location = Some (point 121 14)\<rparr>"

definition demo_repo :: Repo where
  "demo_repo = \<lparr>users = [demo_volunteer], donations = [demo_donation],
     recipients = [demo_recipient], pickups = []\<rparr>"

definition demo_app_unregistered :: App where
  "demo_app_unregistered = \<lparr>repo = demo_repo, sm_repo = empty_sm_repo\<rparr>"

definition demo_app_registered :: App where
  "demo_app_registered = \<lparr>repo = demo_repo, sm_repo = demo_sm_repo\<rparr>"

text \<open>
  A volunteer as the constructor \<^verbatim>\<open>User(...)\<close> admits it: the location is a dict from strings
  to floats.
\<close>

definition validated_volunteer :: User where
  "validated_volunteer = \<lparr>user_id = ''v2'', user_name = ''Volunteer'', user_role = VOLUNTEER,
     user_phone = None, user_location = Some [(''lon'', JNum 121), (''lat'', JNum 14)]\<rparr>"

definition validated_repo :: Repo where
  "validated_repo = demo_repo\<lparr>users := [validated_volunteer]\<rparr>"

definition demo_donation2 :: Donation where
  "demo_donation2 = \<lparr>don_id = ''d2'', don_donor_id = ''u1'', don_total_weight_kg = 2,
     don_location = Some (point 121 14), don_state = POSTED, don_matched_recipient_id = None,
     don_pickup_id = None\<rparr>"

definition demo_app_pickup :: App where
  "demo_app_pickup =
     \<lparr>repo = demo_repo\<lparr>donations := [demo_donation, demo_donation2]\<rparr>,
      sm_repo = demo_sm_repo\<lparr>sm_donations := [demo_sm_donation\<lparr>sd_state := MATCHED\<rparr>]\<rparr>\<rparr>"

definition demo_pickup :: Pickup where
  "demo_pickup = \<lparr>pk_id = ''p1'', pk_volunteer_id = Some ''v1'',
     pk_donation_ids = [''d1'', ''d2''],
     pk_route_order = [(JNum 14, JNum 121), (JNum 14, JNum 121)],
     pk_scheduled_for = Some 30, pk_status = ''scheduled''\<rparr>"

section \<open>Facts about the dictionaries\<close>

lemma dict_get_key: "dict_get key xs k = Some x \<Longrightarrow> key x = k"
  by (induction xs) (auto split: if_splits)

lemma dict_get_mem: "dict_get key xs k = Some x \<Longrightarrow> x \<in> set xs"
  by (induction xs) (auto split: if_splits)

lemma dict_get_None: "dict_get key xs k = None \<longleftrightarrow> k \<notin> set (map key xs)"
  by (induction xs) auto

lemma dict_get_put_same: "dict_get key (dict_put key v xs) (key v) = Some v"
  by (induction xs) auto

lemma dict_get_put_other: "k \<noteq> key v \<Longrightarrow> dict_get key (dict_put key v xs) k = dict_get key xs k"
  by (induction xs) auto

lemma dict_put_keys:
  "key v \<in> set (map key xs) \<Longrightarrow> map key (dict_put key v xs) = map key xs"
  by (induction xs) auto

lemma dict_put_idem: "dict_put key v (dict_put key v xs) = dict_put key v xs"
  by (induction xs) auto

lemma dict_put_length:
  "key v \<in> set (map key xs) \<Longrightarrow> length (dict_put key v xs) = length xs"
  by (induction xs) auto

lemma dict_has_put: "dict_has key (dict_put key v xs) (key v)"
  unfolding dict_has_def by (induction xs) auto

lemma set_dict_put: "set (dict_put key v xs) \<subseteq> insert v (set xs)"
  by (induction xs) auto

section \<open>Facts about the repositories and the transition\<close>

lemma sm_get_donation_id: "sm_get_donation r did = Some d \<Longrightarrow> sd_id d = did"
  unfolding sm_get_donation_def by (rule dict_get_key)

lemma sm_get_donation_has:
  "sm_get_donation r did = Some d \<Longrightarrow> dict_has sd_id (sm_donations r) did"
  unfolding sm_get_donation_def dict_has_def using dict_get_None [of sd_id "sm_donations r" did]
  by auto

lemma get_donation_id: "get_donation r did = Some d \<Longrightarrow> don_id d = did"
  unfolding get_donation_def by (rule dict_get_key)

lemma update_donation_after_put:
  "update_donation d (r\<lparr>donations := dict_put don_id d (donations r)\<rparr>)
     = Inr (r\<lparr>donations := dict_put don_id d (donations r)\<rparr>)"
  by (simp add: update_donation_def dict_has_put dict_put_idem)

lemma update_recipient_after_put:
  "update_recipient x (r\<lparr>recipients := dict_put rcp_id x (recipients r)\<rparr>)
     = Inr (r\<lparr>recipients := dict_put rcp_id x (recipients r)\<rparr>)"
  by (simp add: update_recipient_def dict_has_put dict_put_idem)

lemma sm_update_donation_after_put:
  "sm_update_donation d (r\<lparr>sm_donations := dict_put sd_id d (sm_donations r)\<rparr>)
     = Inr (r\<lparr>sm_donations := dict_put sd_id d (sm_donations r)\<rparr>)"
  by (simp add: sm_update_donation_def dict_has_put dict_put_idem)


lemma new_AuditLogEntry_no_actor:
  "new_AuditLogEntry did None (actor_role_of r None) old new notes =
     Inr \<lparr>log_donation_id = did, log_actor_user_id = None, log_actor_role = None,
          log_old_state = old, log_new_state = new, log_notes = notes\<rparr>"
  by (simp add: new_AuditLogEntry_def validate_role_def actor_role_of_def)

text \<open>
  Without an acting user no audit entry is refused, and a transition that raises has changed
  nothing.
\<close>

lemma transition_state_fails_unchanged:
  "fst (transition_state r did new None notes) = Inl e
     \<Longrightarrow> snd (transition_state r did new None notes) = r"
  by (auto simp: transition_state_def Let_def sm_update_donation_after_put
      new_AuditLogEntry_no_actor split: option.splits if_splits)

lemma transition_state_not_found:
  "sm_get_donation r did = None
     \<Longrightarrow> transition_state r did new actor_user_id notes = (Inl DonationNotFound, r)"
  by (simp add: transition_state_def)

lemma transition_state_success_state:
  "fst (transition_state r did new actor_user_id notes) = Inr x
     \<Longrightarrow> \<exists>sd. sm_get_donation (snd (transition_state r did new actor_user_id notes)) did = Some sd
            \<and> sd_state sd = new"
proof -
  assume a: "fst (transition_state r did new actor_user_id notes) = Inr x"
  then obtain d where d: "sm_get_donation r did = Some d"
    by (cases "sm_get_donation r did") (auto simp: transition_state_def)
  then have id: "sd_id d = did" by (rule sm_get_donation_id)
  show ?thesis
  proof (cases "new = sd_state d")
    case True
    with d show ?thesis
      by (simp add: transition_state_def Let_def sm_get_donation_def sm_add_audit_log_def
          split: sum.splits)
  next
    case False
    with a d have al: "new \<in> ALLOWED_TRANSITIONS (sd_state d)"
      by (auto simp: transition_state_def Let_def split: if_splits)
    with False d id show ?thesis
      using dict_get_put_same [of sd_id "d\<lparr>sd_state := new\<rparr>" "sm_donations r"]
      by (simp add: transition_state_def Let_def sm_update_donation_after_put
          sm_get_donation_def sm_add_audit_log_def split: sum.splits)
  qed
qed

lemma transition_state_others:
  "k \<noteq> did \<Longrightarrow>
     sm_get_donation (snd (transition_state r did new actor_user_id notes)) k
       = sm_get_donation r k"
proof (cases "sm_get_donation r did")
  case None
  then show ?thesis by (simp add: transition_state_def)
next
  case (Some d)
  assume k: "k \<noteq> did"
  from Some have id: "sd_id d = did" by (rule sm_get_donation_id)
  have put: "dict_get sd_id (dict_put sd_id (d\<lparr>sd_state := new\<rparr>) (sm_donations r)) k
      = dict_get sd_id (sm_donations r) k"
    using dict_get_put_other [of k sd_id "d\<lparr>sd_state := new\<rparr>" "sm_donations r"] k id
    by simp
  show ?thesis
    using Some put
    by (simp add: transition_state_def Let_def sm_update_donation_after_put
        sm_get_donation_def sm_add_audit_log_def split: sum.splits)
qed

text \<open>
  A donation that is in the requested state stays in it, whatever the call does: for the
  donation of the call itself this is the idempotent branch, which writes no state.
\<close>

lemma transition_state_keeps_state:
  assumes "sm_get_donation r k = Some sj" and "sd_state sj = new"
  shows "sm_get_donation (snd (transition_state r did new actor_user_id notes)) k = Some sj"
proof (cases "k = did")
  case False
  with assms(1) show ?thesis by (simp add: transition_state_others)
next
  case True
  with assms show ?thesis
    by (simp add: transition_state_def Let_def sm_get_donation_def sm_add_audit_log_def
        split: sum.splits)
qed

section \<open>Facts about locations and candidates\<close>

lemma truthy_point: "truthy (Some (point lon lat))"
  by (simp add: truthy_def point_def)

lemma lat_lon_point: "lat_lon (Some (point lon lat)) = Inr (JNum lat, JNum lon)"
  by (simp add: lat_lon_def coordinate_def point_def)

lemma haversine_same_point:
  "haversine_distance (JNum lat) (JNum lon) (JNum lat) (JNum lon) = Inr 0"
  by (simp add: haversine_distance_def radians_def atan2_def math_sqrt_def Let_def)

lemma hd_sort_key_mem: "xs \<noteq> [] \<Longrightarrow> hd (sort_key f xs) \<in> set xs"
proof -
  assume "xs \<noteq> []"
  then have "sort_key f xs \<noteq> []" by (metis length_0_conv length_sort)
  then have "hd (sort_key f xs) \<in> set (sort_key f xs)" by (rule hd_in_set)
  then show ?thesis by simp
qed

lemma collect_candidates_mem:
  "collect_candidates km need d_lat d_lon rs = Inr cs \<Longrightarrow> c \<in> set cs
     \<Longrightarrow> snd c \<in> set rs \<and> need \<le> rcp_capacity_kg (snd c)"
proof (induction rs arbitrary: cs)
  case Nil
  then show ?case by simp
next
  case (Cons r rs)
  show ?case
  proof (cases "need \<le> rcp_capacity_kg r \<and> truthy (rcp_location r)")
    case False
    with Cons.prems have "collect_candidates km need d_lat d_lon rs = Inr cs" by auto
    from Cons.IH [OF this Cons.prems(2)] show ?thesis by simp
  next
    case True
    with Cons.prems(1) obtain distance cs' where
      rest: "collect_candidates km need d_lat d_lon rs = Inr cs'"
      and cs: "cs = (if distance \<le> km then (distance, r) # cs' else cs')"
      by (auto split: sum.splits prod.splits)
    show ?thesis
    proof (cases "c \<in> set cs'")
      case True
      from Cons.IH [OF rest True] show ?thesis by simp
    next
      case False
      with cs Cons.prems(2) have "c = (distance, r)" by (auto split: if_splits)
      with True show ?thesis by simp
    qed
  qed
qed

lemma chosen_is_candidate:
  assumes "collect_candidates km need d_lat d_lon rs = Inr cs" and "cs \<noteq> []"
  shows "snd (hd (sort_key fst cs)) \<in> set rs
    \<and> need \<le> rcp_capacity_kg (snd (hd (sort_key fst cs)))"
  using collect_candidates_mem [OF assms(1) hd_sort_key_mem [OF assms(2)]] .

text \<open>
  The loop body in its three cases: the donation is skipped or an exception is raised before
  anything is written, or a recipient is chosen.
\<close>

lemma match_donation_chosen:
  assumes "truthy (don_location d)" and "lat_lon (don_location d) = Inr (lat, lon)"
    and "collect_candidates km (don_total_weight_kg d) lat lon (recipients (repo st)) = Inr cs"
    and "cs \<noteq> []"
  shows "match_donation km d st assigned =
     (let chosen = snd (hd (sort_key fst cs));
          d1 = d\<lparr>don_matched_recipient_id := Some (rcp_id chosen)\<rparr>;
          r1 = (repo st)\<lparr>donations := dict_put don_id d1 (donations (repo st))\<rparr>
      in case transition_state (sm_repo st) (don_id d) MATCHED None (Some ''auto-match'') of
           (Inl e, sm1) \<Rightarrow> (Inl e, st\<lparr>repo := r1, sm_repo := sm1\<rparr>)
         | (Inr x, sm1) \<Rightarrow>
             (Inr (assigned @ [(don_id d, rcp_id chosen)]),
              st\<lparr>repo := r1\<lparr>recipients := dict_put rcp_id
                      (chosen\<lparr>rcp_capacity_kg := rcp_capacity_kg chosen - don_total_weight_kg d\<rparr>)
                      (recipients (repo st))\<rparr>,
                 sm_repo := sm1\<rparr>))"
  using assms
  by (simp add: match_donation_def Let_def list_recipients_def update_donation_after_put
      update_recipient_def dict_has_put dict_put_idem split: prod.splits sum.splits)

lemma match_donation_not_chosen:
  assumes "\<not> (\<exists>lat lon cs. truthy (don_location d) \<and> lat_lon (don_location d) = Inr (lat, lon)
      \<and> collect_candidates km (don_total_weight_kg d) lat lon (recipients (repo st)) = Inr cs
      \<and> cs \<noteq> [])"
  shows "snd (match_donation km d st assigned) = st
    \<and> (fst (match_donation km d st assigned) = Inr assigned
       \<or> (\<exists>e. fst (match_donation km d st assigned) = Inl e))"
  using assms
  by (auto simp: match_donation_def Let_def list_recipients_def split: sum.splits prod.splits)

section \<open>The state machine\<close>




text \<open>
  Claim C2. For a donation in state \<open>old\<close> and a different state \<open>new\<close> that the table does
  not allow after \<open>old\<close> (any different target, when \<open>old\<close> is terminal),
  \<^verbatim>\<open>transition_state\<close> raises the invalid-transition error naming \<open>old\<close> and \<open>new\<close> and leaves
  the whole repository, donations and audit logs, as it was.
\<close>

theorem transition_state_illegal:
  assumes "sm_get_donation r did = Some d" and "sd_state d = old" and "new \<noteq> old"
    and "new \<notin> ALLOWED_TRANSITIONS old"
  shows "transition_state r did new actor_user_id notes = (Inl (InvalidTransition old new), r)"
  using assms by (simp add: transition_state_def Let_def)

theorem transition_state_illegal_witness:
  "sm_get_donation (demo_sm_repo\<lparr>sm_donations := [demo_sm_donation\<lparr>sd_state := DELIVERED\<rparr>]\<rparr>)
      ''d1'' = Some (demo_sm_donation\<lparr>sd_state := DELIVERED\<rparr>)
   \<and> sd_state (demo_sm_donation\<lparr>sd_state := DELIVERED\<rparr>) = DELIVERED
   \<and> CANCELLED \<noteq> DELIVERED \<and> CANCELLED \<notin> ALLOWED_TRANSITIONS DELIVERED
   \<and> transition_state (demo_sm_repo\<lparr>sm_donations := [demo_sm_donation\<lparr>sd_state := DELIVERED\<rparr>]\<rparr>)
       ''d1'' CANCELLED None None =
     (Inl (InvalidTransition DELIVERED CANCELLED),
      demo_sm_repo\<lparr>sm_donations := [demo_sm_donation\<lparr>sd_state := DELIVERED\<rparr>]\<rparr>)"
proof -
  let ?d = "demo_sm_donation\<lparr>sd_state := DELIVERED\<rparr>"
  let ?r = "demo_sm_repo\<lparr>sm_donations := [?d]\<rparr>"
  have h1: "sm_get_donation ?r ''d1'' = Some ?d"
    by (simp add: sm_get_donation_def demo_sm_donation_def)
  have h2: "sd_state ?d = DELIVERED" by simp
  have h3: "CANCELLED \<noteq> DELIVERED" by simp
  have h4: "CANCELLED \<notin> ALLOWED_TRANSITIONS DELIVERED" by simp
  show ?thesis
    using transition_state_illegal [OF h1 h2 h3 h4, of None None] h1 by simp
qed

text \<open>
  Claim C3, as amended. For a donation in state \<open>s\<close> and an acting user whose role the
  audit entry accepts (no acting user, one that the user store does not know, or one whose
  stored role is the value of a \<^verbatim>\<open>Role\<close> member), \<^verbatim>\<open>transition_state\<close> with requested state
  \<open>s\<close> returns the donation unchanged, leaves the stored donations unchanged, and appends
  exactly one audit entry with \<open>old_state = new_state = s\<close>; the entry's note is the
  supplied note when that is a non-empty string, and \<^verbatim>\<open>"idempotent transition"\<close> when no note
  or the empty string is supplied.
\<close>

theorem transition_state_idempotent:
  assumes "sm_get_donation r did = Some d" and "sd_state d = s"
    and "validate_role (actor_role_of r actor_user_id) = Inr role"
  shows "(case transition_state r did s actor_user_id notes of (res, r') \<Rightarrow>
    res = Inr d
    \<and> sm_donations r' = sm_donations r
    \<and> sm_users r' = sm_users r
    \<and> sm_get_audit_logs_for_donation r' did =
        sm_get_audit_logs_for_donation r did @
          [\<lparr>log_donation_id = did, log_actor_user_id = actor_user_id,
            log_actor_role = role,
            log_old_state = Some s, log_new_state = s,
            log_notes = (if notes = None \<or> notes = Some [] then Some ''idempotent transition''
                         else notes)\<rparr>]
    \<and> (\<forall>k. k \<noteq> did \<longrightarrow>
          sm_get_audit_logs_for_donation r' k = sm_get_audit_logs_for_donation r k))"
proof -
  have id: "sd_id d = did" using assms(1) by (rule sm_get_donation_id)
  have n: "notes_or_idempotent notes =
      (if notes = None \<or> notes = Some [] then Some ''idempotent transition'' else notes)"
    by (cases "notes") (simp_all add: notes_or_idempotent_def)
  show ?thesis
    using assms id n
    by (simp add: transition_state_def Let_def sm_add_audit_log_def new_AuditLogEntry_def
        sm_get_audit_logs_for_donation_def)
qed

theorem transition_state_idempotent_witness:
  "sm_get_donation demo_sm_repo ''d1'' = Some demo_sm_donation
   \<and> sd_state demo_sm_donation = POSTED
   \<and> validate_role (actor_role_of demo_sm_repo (Some ''v1'')) = Inr (Some VOLUNTEER)
   \<and> fst (transition_state demo_sm_repo ''d1'' POSTED (Some ''v1'') (Some ''retry''))
       = Inr demo_sm_donation
   \<and> sm_donations (snd (transition_state demo_sm_repo ''d1'' POSTED (Some ''v1'')
        (Some ''retry''))) = sm_donations demo_sm_repo
   \<and> sm_get_audit_logs_for_donation
       (snd (transition_state demo_sm_repo ''d1'' POSTED (Some ''v1'') (Some ''retry'')))
       ''d1'' =
       [\<lparr>log_donation_id = ''d1'', log_actor_user_id = Some ''v1'',
         log_actor_role = Some VOLUNTEER,
         log_old_state = Some POSTED, log_new_state = POSTED, log_notes = Some ''retry''\<rparr>]"
proof -
  have h1: "sm_get_donation demo_sm_repo ''d1'' = Some demo_sm_donation"
    by (simp add: sm_get_donation_def demo_sm_repo_def demo_sm_donation_def)
  have h2: "sd_state demo_sm_donation = POSTED"
    by (simp add: demo_sm_donation_def)
  have h3: "validate_role (actor_role_of demo_sm_repo (Some ''v1'')) = Inr (Some VOLUNTEER)"
    by (simp add: validate_role_def actor_role_of_def sm_get_user_def demo_sm_repo_def
        role_of_value_def)
  have logs0: "sm_get_audit_logs_for_donation demo_sm_repo ''d1'' = []"
    by (simp add: sm_get_audit_logs_for_donation_def demo_sm_repo_def)
  show ?thesis
    using transition_state_idempotent [OF h1 h2 h3, of "Some ''retry''"] h1 h2 h3 logs0
    by (simp add: split_beta)
qed

text \<open>
  Claim C3 as stated fails in two places. For the empty note,
  \<^verbatim>\<open>notes or "idempotent transition"\<close> replaces it, so the entry does not carry the supplied
  note. For an acting user whose stored role is not the value of a \<^verbatim>\<open>Role\<close> member, the
  audit entry is refused: the call raises and appends nothing.
\<close>

theorem transition_state_idempotent_counterexample:
  "sm_get_donation demo_sm_repo ''d1'' = Some demo_sm_donation
   \<and> sd_state demo_sm_donation = POSTED
   \<and> map log_notes (sm_get_audit_logs_for_donation
       (snd (transition_state demo_sm_repo ''d1'' POSTED None (Some ''''))) ''d1'')
      = [Some ''idempotent transition'']
   \<and> Some ''idempotent transition'' \<noteq> Some ''''
   \<and> sm_get_user demo_sm_repo ''x1'' = Some ''manager''
   \<and> fst (transition_state demo_sm_repo ''d1'' POSTED (Some ''x1'') (Some ''retry''))
       = Inl ValidationError
   \<and> sm_get_audit_logs_for_donation
       (snd (transition_state demo_sm_repo ''d1'' POSTED (Some ''x1'') (Some ''retry'')))
       ''d1'' = []"
  by (simp add: transition_state_def sm_get_donation_def demo_sm_repo_def demo_sm_donation_def
      Let_def sm_add_audit_log_def sm_get_audit_logs_for_donation_def notes_or_idempotent_def
      new_AuditLogEntry_def validate_role_def actor_role_of_def sm_get_user_def
      role_of_value_def)

section \<open>The matching engine\<close>

lemma match_donation_nonneg:
  assumes "\<forall>r\<in>set (recipients (repo st)). 0 \<le> rcp_capacity_kg r"
  shows "\<forall>r\<in>set (recipients (repo (snd (match_donation km d st assigned)))).
           0 \<le> rcp_capacity_kg r"
proof (cases "\<exists>lat lon cs. truthy (don_location d) \<and> lat_lon (don_location d) = Inr (lat, lon)
      \<and> collect_candidates km (don_total_weight_kg d) lat lon (recipients (repo st)) = Inr cs
      \<and> cs \<noteq> []")
  case False
  then show ?thesis
    using assms match_donation_not_chosen [of d km st assigned] by simp
next
  case True
  then obtain lat lon cs where l: "truthy (don_location d)"
    and ll: "lat_lon (don_location d) = Inr (lat, lon)"
    and c: "collect_candidates km (don_total_weight_kg d) lat lon (recipients (repo st)) = Inr cs"
    and ne: "cs \<noteq> []"
    by blast
  define chosen where "chosen = snd (hd (sort_key fst cs))"
  have ch: "chosen \<in> set (recipients (repo st))"
    "don_total_weight_kg d \<le> rcp_capacity_kg chosen"
    using chosen_is_candidate [OF c ne] by (simp_all add: chosen_def)
  have dec: "0 \<le> rcp_capacity_kg chosen - don_total_weight_kg d"
    using ch(2) by simp
  have put: "\<forall>r\<in>set (dict_put rcp_id
      (chosen\<lparr>rcp_capacity_kg := rcp_capacity_kg chosen - don_total_weight_kg d\<rparr>)
      (recipients (repo st))). 0 \<le> rcp_capacity_kg r"
    using set_dict_put [of rcp_id
        "chosen\<lparr>rcp_capacity_kg := rcp_capacity_kg chosen - don_total_weight_kg d\<rparr>"
        "recipients (repo st)"] assms dec
    by auto
  show ?thesis
    using assms put
    by (simp add: match_donation_chosen [OF l ll c ne] Let_def chosen_def [symmetric]
        split: prod.splits sum.splits)
qed

lemma match_loop_nonneg:
  "\<forall>r\<in>set (recipients (repo st)). 0 \<le> rcp_capacity_kg r
     \<Longrightarrow> \<forall>r\<in>set (recipients (repo (snd (match_loop km ds st assigned)))).
           0 \<le> rcp_capacity_kg r"
proof (induction ds arbitrary: st assigned)
  case Nil
  then show ?case by simp
next
  case (Cons d ds)
  obtain out st1 where m: "match_donation km d st assigned = (out, st1)"
    by (cases "match_donation km d st assigned")
  have inv: "\<forall>r\<in>set (recipients (repo st1)). 0 \<le> rcp_capacity_kg r"
    using match_donation_nonneg [OF Cons.prems, of km d assigned] m by simp
  show ?case
  proof (cases out)
    case (Inl e)
    with m inv show ?thesis by simp
  next
    case (Inr assigned1)
    with m Cons.IH [OF inv, of assigned1] show ?thesis by simp
  qed
qed

lemma match_donation_assigns_within_capacity:
  assumes "match_donation km d st assigned = (Inr assigned1, st1)" and "assigned1 \<noteq> assigned"
  shows "\<exists>r\<in>set (recipients (repo st)).
           assigned1 = assigned @ [(don_id d, rcp_id r)]
           \<and> don_total_weight_kg d \<le> rcp_capacity_kg r"
proof (cases "\<exists>lat lon cs. truthy (don_location d) \<and> lat_lon (don_location d) = Inr (lat, lon)
      \<and> collect_candidates km (don_total_weight_kg d) lat lon (recipients (repo st)) = Inr cs
      \<and> cs \<noteq> []")
  case False
  then show ?thesis
    using assms match_donation_not_chosen [of d km st assigned] by simp
next
  case True
  then obtain lat lon cs where l: "truthy (don_location d)"
    and ll: "lat_lon (don_location d) = Inr (lat, lon)"
    and c: "collect_candidates km (don_total_weight_kg d) lat lon (recipients (repo st)) = Inr cs"
    and ne: "cs \<noteq> []"
    by blast
  show ?thesis
    using assms(1) chosen_is_candidate [OF c ne]
    by (auto simp: match_donation_chosen [OF l ll c ne] Let_def split: prod.splits sum.splits)
qed

text \<open>
  Claim C5. If every recipient's capacity is non-negative before a matching run, with any
  search radius, then every recipient's capacity is non-negative after it, whether the run
  returns or raises; and whenever the loop body reports an assignment, the recipient it
  assigned had a capacity of at least the donation's weight.
\<close>

theorem greedy_match_local_capacity:
  assumes "\<forall>r\<in>set (recipients (repo st)). 0 \<le> rcp_capacity_kg r"
  shows "(\<forall>r\<in>set (recipients (repo (snd (greedy_match_local km st)))). 0 \<le> rcp_capacity_kg r)
    \<and> (\<forall>d st0 assigned assigned1 st1.
          match_donation km d st0 assigned = (Inr assigned1, st1) \<and> assigned1 \<noteq> assigned
          \<longrightarrow> (\<exists>r\<in>set (recipients (repo st0)).
                 assigned1 = assigned @ [(don_id d, rcp_id r)]
                 \<and> don_total_weight_kg d \<le> rcp_capacity_kg r))"
  using match_loop_nonneg [OF assms] match_donation_assigns_within_capacity
  unfolding greedy_match_local_def by blast

lemmas demo_defs = demo_app_registered_def demo_app_unregistered_def demo_repo_def
  demo_donation_def demo_recipient_def demo_volunteer_def demo_sm_repo_def demo_sm_donation_def
  empty_sm_repo_def

lemmas run_defs = greedy_match_local_def list_open_donations_def list_recipients_def
  match_donation_def transition_state_def sm_get_donation_def sm_update_donation_def
  update_donation_def update_recipient_def dict_has_def sm_add_audit_log_def
  new_AuditLogEntry_no_actor notes_or_idempotent_def get_donation_def truthy_point
  lat_lon_point haversine_same_point Let_def

theorem greedy_match_local_capacity_witness:
  "map rcp_capacity_kg (recipients (repo demo_app_registered)) = [100]
   \<and> (0::real) \<le> 100
   \<and> map rcp_capacity_kg (recipients (repo (snd (greedy_match_local 10 demo_app_registered))))
       = [95]
   \<and> (0::real) \<le> 95"
proof -
  have h: "\<forall>r\<in>set (recipients (repo demo_app_registered)). 0 \<le> rcp_capacity_kg r"
    by (simp add: demo_defs)
  show ?thesis
    using greedy_match_local_capacity [OF h, of 10]
    by (simp add: demo_defs run_defs)
qed

text \<open>
  Claim C9. \<^verbatim>\<open>transition_state\<close> reads the repository of \<^verbatim>\<open>state_machine\<close> only. For a
  donation id that the endpoints' repository holds and the state machine's repository does
  not, \<^verbatim>\<open>transition_state\<close> raises the donation-not-found error and changes nothing, and so
  the auto-match step of \<^verbatim>\<open>greedy_match_local\<close> for such a donation, once it has a candidate,
  raises that error with no capacity decremented.
\<close>

theorem transition_state_other_repo:
  assumes "get_donation (repo st) did = Some d"
    and "sm_get_donation (sm_repo st) did = None"
  shows "transition_state (sm_repo st) did new actor_user_id notes
           = (Inl DonationNotFound, sm_repo st)
    \<and> (truthy (don_location d) \<and> lat_lon (don_location d) = Inr (lat, lon)
         \<and> collect_candidates km (don_total_weight_kg d) lat lon (recipients (repo st)) = Inr cs
         \<and> cs \<noteq> []
       \<longrightarrow> fst (match_donation km d st assigned) = Inl DonationNotFound
           \<and> recipients (repo (snd (match_donation km d st assigned))) = recipients (repo st))"
proof -
  have id: "don_id d = did"
    using assms(1) by (rule get_donation_id)
  have t: "transition_state (sm_repo st) did ns a n
           = (Inl DonationNotFound, sm_repo st)" for ns a n
    using assms(2) by (rule transition_state_not_found)
  show ?thesis
    using t id by (auto simp: match_donation_chosen Let_def)
qed

theorem transition_state_other_repo_witness:
  "get_donation (repo demo_app_unregistered) ''d1'' = Some demo_donation
   \<and> sm_get_donation (sm_repo demo_app_unregistered) ''d1'' = None
   \<and> transition_state (sm_repo demo_app_unregistered) ''d1'' MATCHED None (Some ''auto-match'')
       = (Inl DonationNotFound, sm_repo demo_app_unregistered)
   \<and> truthy (don_location demo_donation)
   \<and> lat_lon (don_location demo_donation) = Inr (JNum 14, JNum 121)
   \<and> collect_candidates 10 (don_total_weight_kg demo_donation) (JNum 14) (JNum 121)
        (recipients (repo demo_app_unregistered)) = Inr [(0, demo_recipient)]
   \<and> fst (match_donation 10 demo_donation demo_app_unregistered []) = Inl DonationNotFound
   \<and> recipients (repo (snd (match_donation 10 demo_donation demo_app_unregistered [])))
       = recipients (repo demo_app_unregistered)"
proof -
  have h1: "get_donation (repo demo_app_unregistered) ''d1'' = Some demo_donation"
    by (simp add: demo_defs get_donation_def)
  have h2: "sm_get_donation (sm_repo demo_app_unregistered) ''d1'' = None"
    by (simp add: demo_defs sm_get_donation_def)
  have c1: "truthy (don_location demo_donation)"
    by (simp add: demo_defs truthy_point)
  have c2: "lat_lon (don_location demo_donation) = Inr (JNum 14, JNum 121)"
    by (simp add: demo_defs lat_lon_point)
  have c3: "collect_candidates 10 (don_total_weight_kg demo_donation) (JNum 14) (JNum 121)
        (recipients (repo demo_app_unregistered)) = Inr [(0, demo_recipient)]"
    by (simp add: demo_defs truthy_point lat_lon_point haversine_same_point)
  show ?thesis
    using transition_state_other_repo [OF h1 h2, of MATCHED None "Some ''auto-match''"
        "JNum 14" "JNum 121" 10 "[(0, demo_recipient)]" "[]"]
      h1 h2 c1 c2 c3
    by simp
qed

text \<open>
  With an empty state machine's repository no run reports an assignment: a run that returns
  has found no candidate for any donation.
\<close>

lemma match_loop_empty_sm:
  "sm_donations (sm_repo st) = [] \<Longrightarrow> fst (match_loop km ds st []) = Inr assigned
     \<Longrightarrow> assigned = []"
proof (induction ds arbitrary: st)
  case Nil
  then show ?case by simp
next
  case (Cons d ds)
  have nf: "transition_state (sm_repo st) (don_id d) MATCHED None (Some ''auto-match'')
      = (Inl DonationNotFound, sm_repo st)"
    using Cons.prems(1) by (simp add: transition_state_not_found sm_get_donation_def)
  show ?case
  proof (cases "\<exists>lat lon cs. truthy (don_location d)
      \<and> lat_lon (don_location d) = Inr (lat, lon)
      \<and> collect_candidates km (don_total_weight_kg d) lat lon (recipients (repo st)) = Inr cs
      \<and> cs \<noteq> []")
    case False
    from match_donation_not_chosen [OF False, of "[]"] Cons.prems(2)
    have "match_donation km d st [] = (Inr [], st)"
      by (cases "match_donation km d st []") auto
    with Cons.IH [OF Cons.prems(1)] Cons.prems(2) show ?thesis by simp
  next
    case True
    then obtain lat lon cs where l: "truthy (don_location d)"
      and ll: "lat_lon (don_location d) = Inr (lat, lon)"
      and c: "collect_candidates km (don_total_weight_kg d) lat lon (recipients (repo st))
          = Inr cs"
      and ne: "cs \<noteq> []"
      by blast
    show ?thesis
      using nf Cons.prems(2) by (simp add: match_donation_chosen [OF l ll c ne] Let_def)
  qed
qed

lemma greedy_match_local_empty_sm:
  "sm_donations (sm_repo st) = [] \<Longrightarrow> fst (greedy_match_local km st) = Inr assigned
     \<Longrightarrow> assigned = []"
  unfolding greedy_match_local_def by (rule match_loop_empty_sm)

text \<open>
  Claim C4 on the code. One posted donation with a location and one recipient in range with
  enough capacity, the donation not being registered with the state machine's repository
  (nothing in \<^verbatim>\<open>api_app.py\<close> registers it there): the run sets \<^verbatim>\<open>matched_recipient_id\<close> and then
  raises donation-not-found; the donation stays \<^verbatim>\<open>posted\<close>, the capacity stays 100 and no
  assignment is returned, where the claim has the donation matched, the capacity decremented
  and the pair returned.
\<close>

theorem greedy_match_local_unregistered_raises:
  "fst (greedy_match_local 10 demo_app_unregistered) = Inl DonationNotFound
   \<and> map don_state (donations (repo (snd (greedy_match_local 10 demo_app_unregistered))))
       = [POSTED]
   \<and> map don_matched_recipient_id
       (donations (repo (snd (greedy_match_local 10 demo_app_unregistered)))) = [Some ''r1'']
   \<and> map rcp_capacity_kg (recipients (repo (snd (greedy_match_local 10 demo_app_unregistered))))
       = [100]"
  by (simp add: demo_defs run_defs)


text \<open>
  What the loop body does keep together: when \<^verbatim>\<open>transition_state\<close> raises, the exception
  leaves the function before the decrement, so the recipients and the state machine's
  repository are as they were and nothing is reported.
\<close>

lemma match_donation_transition_fails:
  assumes "truthy (don_location d)" and "lat_lon (don_location d) = Inr (lat, lon)"
    and "collect_candidates km (don_total_weight_kg d) lat lon (recipients (repo st)) = Inr cs"
    and "cs \<noteq> []"
    and "fst (transition_state (sm_repo st) (don_id d) MATCHED None (Some ''auto-match''))
           = Inl e"
  shows "fst (match_donation km d st assigned) = Inl e
    \<and> recipients (repo (snd (match_donation km d st assigned))) = recipients (repo st)
    \<and> sm_repo (snd (match_donation km d st assigned)) = sm_repo st"
proof -
  obtain out sm1 where t: "transition_state (sm_repo st) (don_id d) MATCHED None
      (Some ''auto-match'') = (out, sm1)"
    by (cases "transition_state (sm_repo st) (don_id d) MATCHED None (Some ''auto-match'')")
  with assms(5) have out: "out = Inl e" by simp
  have "sm1 = sm_repo st"
    using transition_state_fails_unchanged [OF assms(5)] t by simp
  with t out show ?thesis
    by (simp add: match_donation_chosen [OF assms(1-4)] Let_def)
qed

text \<open>
  What it does not: no statement of the loop body writes the \<^verbatim>\<open>state\<close> of a donation of the
  endpoints' repository. Whatever the body does for a stored donation, every donation of that
  repository has the state it had.
\<close>

lemma dict_put_same_field:
  "dict_get key xs (key v) = Some x \<Longrightarrow> f v = f x \<Longrightarrow> map f (dict_put key v xs) = map f xs"
  by (induction xs) (auto split: if_splits)

lemma match_donation_state_kept:
  assumes "get_donation (repo st) (don_id d) = Some d"
  shows "map don_state (donations (repo (snd (match_donation km d st assigned))))
    = map don_state (donations (repo st))"
proof (cases "\<exists>lat lon cs. truthy (don_location d) \<and> lat_lon (don_location d) = Inr (lat, lon)
      \<and> collect_candidates km (don_total_weight_kg d) lat lon (recipients (repo st)) = Inr cs
      \<and> cs \<noteq> []")
  case False
  then show ?thesis
    using match_donation_not_chosen [of d km st assigned] by simp
next
  case True
  then obtain lat lon cs where l: "truthy (don_location d)"
    and ll: "lat_lon (don_location d) = Inr (lat, lon)"
    and c: "collect_candidates km (don_total_weight_kg d) lat lon (recipients (repo st)) = Inr cs"
    and ne: "cs \<noteq> []"
    by blast
  have "map don_state (dict_put don_id (d\<lparr>don_matched_recipient_id := x\<rparr>)
      (donations (repo st))) = map don_state (donations (repo st))" for x
    using assms dict_put_same_field [of don_id "donations (repo st)"
        "d\<lparr>don_matched_recipient_id := x\<rparr>" d don_state]
    by (simp add: get_donation_def)
  then show ?thesis
    by (simp add: match_donation_chosen [OF l ll c ne] Let_def split: prod.splits sum.splits)
qed


section \<open>The route planner\<close>

lemma distances_from_snd:
  "distances_from current ps = Inr ds \<Longrightarrow> map snd ds = ps"
  by (induction ps arbitrary: ds) (auto split: sum.splits)

lemma haversine_distance_numbers:
  "haversine_distance lat1 lon1 lat2 lon2 = Inr x
     \<Longrightarrow> number lat2 \<noteq> None \<and> number lon2 \<noteq> None"
  by (auto simp: haversine_distance_def split: option.splits)

lemma distances_from_numbers:
  "distances_from current ps = Inr ds \<Longrightarrow> p \<in> set ps
     \<Longrightarrow> number (fst p) \<noteq> None \<and> number (snd p) \<noteq> None"
proof (induction ps arbitrary: ds)
  case Nil
  then show ?case by simp
next
  case (Cons q qs)
  from Cons.prems(1) obtain x ds' where
    h: "haversine_distance (fst current) (snd current) (fst q) (snd q) = Inr x"
    and rest: "distances_from current qs = Inr ds'"
    by (auto split: sum.splits)
  show ?case
  proof (cases "p = q")
    case True
    with haversine_distance_numbers [OF h] show ?thesis by simp
  next
    case False
    with Cons.prems(2) have "p \<in> set qs" by simp
    from Cons.IH [OF rest this] show ?thesis .
  qed
qed

lemma nearest_in_remaining:
  assumes "distances_from current remaining = Inr ds" and "remaining \<noteq> []"
  shows "snd (hd (sort_key fst ds)) \<in> set remaining"
proof -
  have sn: "map snd ds = remaining"
    using assms(1) by (rule distances_from_snd)
  with assms(2) have "ds \<noteq> []" by auto
  then have "hd (sort_key fst ds) \<in> set ds" by (rule hd_sort_key_mem)
  then have "snd (hd (sort_key fst ds)) \<in> set (map snd ds)" by (simp add: image_iff) blast
  with sn show ?thesis by simp
qed

text \<open>
  When the loop returns, it returns the points it has been given, each once, after the ones
  already ordered.
\<close>

lemma mset_route_loop:
  "route_loop order current remaining = Inr route
     \<Longrightarrow> mset route = mset order + mset remaining"
proof (induction order current remaining rule: route_loop.induct)
  case (1 order current remaining)
  show ?case
  proof (cases "remaining = []")
    case True
    with "1.prems" show ?thesis by (subst (asm) route_loop.simps) simp
  next
    case False
    with "1.prems" obtain ds where ds: "distances_from current remaining = Inr ds"
      by (subst (asm) route_loop.simps) (auto split: sum.splits)
    define nearest where "nearest = snd (hd (sort_key fst ds))"
    have mem: "nearest \<in> set remaining"
      unfolding nearest_def using ds False by (rule nearest_in_remaining)
    have step: "route_loop (order @ [nearest]) nearest (remove1 nearest remaining) = Inr route"
      using "1.prems" False ds
      by (subst (asm) route_loop.simps) (simp add: Let_def nearest_def)
    have "mset route = mset (order @ [nearest]) + mset (remove1 nearest remaining)"
      using "1.IH" [OF False ds nearest_def step] .
    also have "\<dots> = mset order + mset remaining"
      using mem by simp
    finally show ?thesis .
  qed
qed

lemma route_loop_numbers:
  "route_loop order current remaining = Inr route
     \<Longrightarrow> \<forall>p\<in>set order. number (fst p) \<noteq> None \<and> number (snd p) \<noteq> None
     \<Longrightarrow> \<forall>p\<in>set route. number (fst p) \<noteq> None \<and> number (snd p) \<noteq> None"
proof (induction order current remaining rule: route_loop.induct)
  case (1 order current remaining)
  show ?case
  proof (cases "remaining = []")
    case True
    with "1.prems" show ?thesis by (subst (asm) route_loop.simps) simp
  next
    case False
    with "1.prems"(1) obtain ds where ds: "distances_from current remaining = Inr ds"
      by (subst (asm) route_loop.simps) (auto split: sum.splits)
    define nearest where "nearest = snd (hd (sort_key fst ds))"
    have mem: "nearest \<in> set remaining"
      unfolding nearest_def using ds False by (rule nearest_in_remaining)
    have num: "number (fst nearest) \<noteq> None \<and> number (snd nearest) \<noteq> None"
      using ds mem by (rule distances_from_numbers)
    have step: "route_loop (order @ [nearest]) nearest (remove1 nearest remaining) = Inr route"
      using "1.prems"(1) False ds
      by (subst (asm) route_loop.simps) (simp add: Let_def nearest_def)
    have "\<forall>p\<in>set (order @ [nearest]). number (fst p) \<noteq> None \<and> number (snd p) \<noteq> None"
      using "1.prems"(2) num by simp
    from "1.IH" [OF False ds nearest_def step this] show ?thesis .
  qed
qed

lemma collect_points_found:
  "collect_points r ids = Inr ps \<Longrightarrow> did \<in> set ids \<Longrightarrow> get_donation r did \<noteq> None"
  by (induction ids arbitrary: ps) (auto split: option.splits if_splits sum.splits)

lemma collect_points_eq:
  "collect_points r ids = Inr ps
     \<Longrightarrow> map Inr ps = map (\<lambda>did. lat_lon (don_location (the (get_donation r did)))) ids"
  by (induction ids arbitrary: ps) (auto split: option.splits if_splits sum.splits)

lemma plan_route_local_found:
  "plan_route_local r volunteer_id ids = Inr ordered \<Longrightarrow> did \<in> set ids
     \<Longrightarrow> get_donation r did \<noteq> None"
  using collect_points_found [of r ids _ did]
  by (auto simp: plan_route_local_def split: option.splits if_splits sum.splits prod.splits)

text \<open>
  A route that \<^verbatim>\<open>plan_route_local\<close> returns is, as a multiset, the list of the
  \<open>(lat, lon)\<close> pairs read from the referenced donations, and its entries are pairs of
  numbers.
\<close>

lemma plan_route_local_permutation:
  assumes "plan_route_local r volunteer_id donation_ids = Inr route"
  shows "\<exists>points. collect_points r donation_ids = Inr points \<and> mset route = mset points
    \<and> map Inr points
        = map (\<lambda>did. lat_lon (don_location (the (get_donation r did)))) donation_ids"
proof -
  from assms obtain start points where p: "collect_points r donation_ids = Inr points"
    and l: "route_loop [] start points = Inr route"
    by (auto simp: plan_route_local_def split: option.splits if_splits sum.splits prod.splits)
  from mset_route_loop [OF l] collect_points_eq [OF p] p show ?thesis by simp
qed

lemma plan_route_local_numbers:
  assumes "plan_route_local r volunteer_id donation_ids = Inr route"
  shows "\<forall>p\<in>set route. number (fst p) \<noteq> None \<and> number (snd p) \<noteq> None"
proof -
  from assms obtain start points where l: "route_loop [] start points = Inr route"
    by (auto simp: plan_route_local_def split: option.splits if_splits sum.splits prod.splits)
  from route_loop_numbers [OF l] show ?thesis by simp
qed

text \<open>
  A volunteer built by the constructor has a location whose values are all floats, as
  \<^verbatim>\<open>Dict[str, float]\<close> demands. For every such volunteer \<^verbatim>\<open>plan_route_local\<close> raises, whatever
  the donations are: the dict is empty, or it has no key \<^verbatim>\<open>"coordinates"\<close>, or the value
  under that key is a float, which has no subscript.
\<close>

lemma plan_route_local_float_dict_raises:
  assumes "get_user r volunteer_id = Some v" and "user_location v = Some items"
    and "\<forall>kv\<in>set items. number (snd kv) \<noteq> None"
  shows "plan_route_local r volunteer_id donation_ids \<in>
    {Inl VolunteerMissing, Inl KeyErrorCoordinates, Inl TypeError}"
proof (cases "map_of items ''coordinates''")
  case None
  with assms(1,2) show ?thesis
    by (simp add: plan_route_local_def lat_lon_def coordinate_def)
next
  case (Some c)
  then have "(''coordinates'', c) \<in> set items" by (rule map_of_SomeD)
  with assms(3) have "number c \<noteq> None" by fastforce
  then obtain x where "c = JNum x" by (cases c) simp_all
  with Some assms(1,2) show ?thesis
    by (simp add: plan_route_local_def lat_lon_def coordinate_def)
qed

lemma demo_route_one:
  "route_loop [] (JNum 14, JNum 121) [(JNum 14, JNum 121)] = Inr [(JNum 14, JNum 121)]"
  by (simp add: route_loop.simps haversine_same_point)

text \<open>
  Claim C7 on the code. The volunteer exists and has a location, the one donation of the list
  exists and has a GeoJSON location. The volunteer's location is a dict of floats, which is
  what the declaration \<^verbatim>\<open>location: Optional[Dict[str, float]]\<close> of \<^verbatim>\<open>User\<close> lets the
  constructor accept: \<^verbatim>\<open>plan_route_local\<close> raises \<^verbatim>\<open>KeyError\<close> at
  \<^verbatim>\<open>v.location["coordinates"]\<close>, where the claim has it return the donation's location. For a
  volunteer whose location is the GeoJSON point of the comment above that declaration, the
  same call returns the route of the claim.
\<close>

theorem plan_route_local_validated_volunteer_raises:
  "get_user validated_repo ''v2'' = Some validated_volunteer
   \<and> user_location validated_volunteer = Some [(''lon'', JNum 121), (''lat'', JNum 14)]
   \<and> truthy (user_location validated_volunteer)
   \<and> map_option don_location (get_donation validated_repo ''d1'') = Some (Some (point 121 14))
   \<and> plan_route_local validated_repo ''v2'' [''d1''] = Inl KeyErrorCoordinates
   \<and> user_location demo_volunteer = Some (point 121 14)
   \<and> plan_route_local demo_repo ''v1'' [''d1''] = Inr [(JNum 14, JNum 121)]"
proof -
  have input: "get_user validated_repo ''v2'' = Some validated_volunteer
      \<and> user_location validated_volunteer = Some [(''lon'', JNum 121), (''lat'', JNum 14)]
      \<and> truthy (user_location validated_volunteer)
      \<and> map_option don_location (get_donation validated_repo ''d1'')
          = Some (Some (point 121 14))"
    by (simp add: validated_repo_def validated_volunteer_def demo_repo_def demo_donation_def
        get_user_def get_donation_def truthy_def)
  have raises: "plan_route_local validated_repo ''v2'' [''d1''] = Inl KeyErrorCoordinates"
    by (simp add: validated_repo_def validated_volunteer_def demo_repo_def get_user_def
        plan_route_local_def truthy_def lat_lon_def coordinate_def)
  have geojson: "user_location demo_volunteer = Some (point 121 14)
      \<and> plan_route_local demo_repo ''v1'' [''d1''] = Inr [(JNum 14, JNum 121)]"
    by (simp add: demo_repo_def demo_volunteer_def demo_donation_def get_user_def
        get_donation_def plan_route_local_def truthy_point lat_lon_point demo_route_one)
  from input raises geojson show ?thesis by blast
qed

section \<open>Pickup planning\<close>

lemma pickup_loop_step:
  assumes "get_donation (repo st) did = Some d"
  shows "pickup_loop pid volunteer_id (did # dids) st =
     (case transition_state (sm_repo st) did PICKUP_SCHEDULED (Some volunteer_id)
             (Some (''pickup '' @ pid @ '' planned'')) of
        (Inl e, sm1) \<Rightarrow> (Inl e, st\<lparr>sm_repo := sm1\<rparr>)
      | (Inr x, sm1) \<Rightarrow>
          pickup_loop pid volunteer_id dids
            (st\<lparr>sm_repo := sm1,
                repo := (repo st)\<lparr>donations :=
                  dict_put don_id (d\<lparr>don_pickup_id := Some pid\<rparr>) (donations (repo st))\<rparr>\<rparr>))"
  using assms get_donation_id [OF assms]
  by (simp add: Let_def update_donation_def dict_has_put dict_put_idem
      split: prod.splits sum.splits)

lemma pickup_loop_append:
  "pickup_loop pid volunteer_id (xs @ ys) st =
     (case pickup_loop pid volunteer_id xs st of
        (Inl e, st1) \<Rightarrow> (Inl e, st1)
      | (Inr u, st1) \<Rightarrow> pickup_loop pid volunteer_id ys st1)"
proof (induction xs arbitrary: st)
  case Nil
  then show ?case by simp
next
  case (Cons x xs)
  show ?case
  proof (cases "get_donation (repo st) x")
    case None
    then show ?thesis by simp
  next
    case (Some d)
    show ?thesis
      using Cons.IH
      by (simp add: pickup_loop_step [OF Some] del: pickup_loop.simps(2)
          split: prod.splits sum.splits)
  qed
qed

lemma pickup_loop_pickups:
  "pickups (repo (snd (pickup_loop pid volunteer_id ids st))) = pickups (repo st)"
proof (induction ids arbitrary: st)
  case Nil
  then show ?case by simp
next
  case (Cons x xs)
  show ?case
  proof (cases "get_donation (repo st) x")
    case None
    then show ?thesis by simp
  next
    case (Some d)
    show ?thesis
      using Cons.IH
      by (simp add: pickup_loop_step [OF Some] del: pickup_loop.simps(2)
          split: prod.splits sum.splits)
  qed
qed

lemma pickup_loop_keys:
  "map don_id (donations (repo (snd (pickup_loop pid volunteer_id ids st))))
     = map don_id (donations (repo st))"
proof (induction ids arbitrary: st)
  case Nil
  then show ?case by simp
next
  case (Cons x xs)
  show ?case
  proof (cases "get_donation (repo st) x")
    case None
    then show ?thesis by simp
  next
    case (Some d)
    have mem: "don_id (d\<lparr>don_pickup_id := Some pid\<rparr>) \<in> set (map don_id (donations (repo st)))"
      using Some dict_get_None [of don_id "donations (repo st)" x] get_donation_id [OF Some]
      by (auto simp: get_donation_def)
    show ?thesis
      using Cons.IH dict_put_keys [OF mem]
      by (simp add: pickup_loop_step [OF Some] del: pickup_loop.simps(2)
          split: prod.splits sum.splits)
  qed
qed

lemma pickup_step_applied:
  assumes d: "get_donation (repo st) did = Some d"
    and t: "transition_state (sm_repo st) did PICKUP_SCHEDULED a n = (Inr x, sm1)"
  shows "pickup_applied pid
           (st\<lparr>sm_repo := sm1,
               repo := (repo st)\<lparr>donations :=
                 dict_put don_id (d\<lparr>don_pickup_id := Some pid\<rparr>) (donations (repo st))\<rparr>\<rparr>) did"
proof -
  have id: "don_id d = did" using d by (rule get_donation_id)
  have mr: "dict_get don_id
      (dict_put don_id (d\<lparr>don_pickup_id := Some pid\<rparr>) (donations (repo st))) did
      = Some (d\<lparr>don_pickup_id := Some pid\<rparr>)"
    using dict_get_put_same [of don_id "d\<lparr>don_pickup_id := Some pid\<rparr>" "donations (repo st)"] id
    by simp
  have sr: "\<exists>sd. sm_get_donation sm1 did = Some sd \<and> sd_state sd = PICKUP_SCHEDULED"
    using transition_state_success_state [of "sm_repo st" did PICKUP_SCHEDULED a n x] t
    by simp
  show ?thesis
    using mr sr by (auto simp: pickup_applied_def get_donation_def)
qed

lemma pickup_step_kept:
  assumes d: "get_donation (repo st) did = Some d"
    and t: "transition_state (sm_repo st) did PICKUP_SCHEDULED a n = (out, sm1)"
    and p: "pickup_applied pid st j" and ne: "j \<noteq> did"
  shows "pickup_applied pid
           (st\<lparr>sm_repo := sm1,
               repo := (repo st)\<lparr>donations :=
                 dict_put don_id (d\<lparr>don_pickup_id := Some pid\<rparr>) (donations (repo st))\<rparr>\<rparr>) j"
proof -
  have id: "don_id d = did" using d by (rule get_donation_id)
  have mr: "dict_get don_id
      (dict_put don_id (d\<lparr>don_pickup_id := Some pid\<rparr>) (donations (repo st))) j
      = dict_get don_id (donations (repo st)) j"
    using dict_get_put_other [of j don_id "d\<lparr>don_pickup_id := Some pid\<rparr>" "donations (repo st)"]
      id ne by simp
  have sr: "sm_get_donation sm1 j = sm_get_donation (sm_repo st) j"
    using transition_state_others [OF ne, of "sm_repo st" PICKUP_SCHEDULED a n] t by simp
  show ?thesis
    using p mr sr by (simp add: pickup_applied_def get_donation_def)
qed

text \<open>
  A later call of \<^verbatim>\<open>transition_state\<close> with target \<^verbatim>\<open>pickup_scheduled\<close>, whether it returns or
  raises, undoes nothing of what the loop has applied.
\<close>

lemma pickup_applied_transition:
  assumes "pickup_applied pid st j"
  shows "pickup_applied pid
    (st\<lparr>sm_repo := snd (transition_state (sm_repo st) did PICKUP_SCHEDULED a n)\<rparr>) j"
proof -
  from assms obtain sj where sj: "sm_get_donation (sm_repo st) j = Some sj"
    and s: "sd_state sj = PICKUP_SCHEDULED"
    by (auto simp: pickup_applied_def split: option.splits)
  from transition_state_keeps_state [OF sj s, of did a n] assms s show ?thesis
    by (simp add: pickup_applied_def)
qed

lemma pickup_loop_kept:
  "pickup_applied pid st j \<Longrightarrow> pickup_applied pid (snd (pickup_loop pid volunteer_id ids st)) j"
proof (induction ids arbitrary: st)
  case Nil
  then show ?case by simp
next
  case (Cons x xs)
  show ?case
  proof (cases "get_donation (repo st) x")
    case None
    with Cons.prems show ?thesis by simp
  next
    case (Some d)
    obtain out sm1 where t: "transition_state (sm_repo st) x PICKUP_SCHEDULED (Some volunteer_id)
             (Some (''pickup '' @ pid @ '' planned'')) = (out, sm1)"
      by (cases "transition_state (sm_repo st) x PICKUP_SCHEDULED (Some volunteer_id)
             (Some (''pickup '' @ pid @ '' planned''))")
    show ?thesis
    proof (cases out)
      case (Inl e)
      have "pickup_applied pid (st\<lparr>sm_repo := sm1\<rparr>) j"
        using pickup_applied_transition [OF Cons.prems, of x "Some volunteer_id"
            "Some (''pickup '' @ pid @ '' planned'')"] t
        by simp
      with t Inl show ?thesis
        by (simp add: pickup_loop_step [OF Some] del: pickup_loop.simps(2))
    next
      case (Inr y)
      let ?st1 = "st\<lparr>sm_repo := sm1,
               repo := (repo st)\<lparr>donations :=
                 dict_put don_id (d\<lparr>don_pickup_id := Some pid\<rparr>) (donations (repo st))\<rparr>\<rparr>"
      have "pickup_applied pid ?st1 j"
      proof (cases "j = x")
        case True
        with pickup_step_applied [OF Some, of _ _ y sm1 pid] t Inr show ?thesis by simp
      next
        case False
        from pickup_step_kept [OF Some t Cons.prems False] show ?thesis .
      qed
      from Cons.IH [OF this] t Inr show ?thesis
        by (simp add: pickup_loop_step [OF Some] del: pickup_loop.simps(2))
    qed
  qed
qed

lemma pickup_loop_applied:
  "pickup_loop pid volunteer_id ids st = (Inr u, st1) \<Longrightarrow> j \<in> set ids
     \<Longrightarrow> pickup_applied pid st1 j"
proof (induction ids arbitrary: st)
  case Nil
  then show ?case by simp
next
  case (Cons x xs)
  show ?case
  proof (cases "get_donation (repo st) x")
    case None
    with Cons.prems show ?thesis by simp
  next
    case (Some d)
    obtain out sm1 where t: "transition_state (sm_repo st) x PICKUP_SCHEDULED (Some volunteer_id)
             (Some (''pickup '' @ pid @ '' planned'')) = (out, sm1)"
      by (cases "transition_state (sm_repo st) x PICKUP_SCHEDULED (Some volunteer_id)
             (Some (''pickup '' @ pid @ '' planned''))")
    show ?thesis
    proof (cases out)
      case (Inl e)
      with Cons.prems(1) t show ?thesis
        by (simp add: pickup_loop_step [OF Some] del: pickup_loop.simps(2))
    next
      case (Inr y)
      let ?st1 = "st\<lparr>sm_repo := sm1,
               repo := (repo st)\<lparr>donations :=
                 dict_put don_id (d\<lparr>don_pickup_id := Some pid\<rparr>) (donations (repo st))\<rparr>\<rparr>"
      have rest: "pickup_loop pid volunteer_id xs ?st1 = (Inr u, st1)"
        using Cons.prems(1) t Inr by (simp add: pickup_loop_step [OF Some] del: pickup_loop.simps(2))
      show ?thesis
      proof (cases "j \<in> set xs")
        case True
        from Cons.IH [OF rest True] show ?thesis .
      next
        case False
        with Cons.prems(2) have jx: "j = x" by simp
        have "pickup_applied pid ?st1 x"
          using pickup_step_applied [OF Some, of _ _ y sm1 pid] t Inr by simp
        from pickup_loop_kept [OF this, of volunteer_id xs] rest jx show ?thesis by simp
      qed
    qed
  qed
qed

text \<open>
  A transition that raises has left the repository as it was, unless what raised is the
  construction of the audit entry.
\<close>

lemma transition_state_fails_unchanged_unless_validation:
  "fst (transition_state r did new actor_user_id notes) = Inl e \<Longrightarrow> e \<noteq> ValidationError
     \<Longrightarrow> snd (transition_state r did new actor_user_id notes) = r"
  by (auto simp: transition_state_def Let_def sm_update_donation_after_put
      new_AuditLogEntry_def validate_role_def split: option.splits if_splits sum.splits)

text \<open>
  Claim C10. \<^verbatim>\<open>plan_pickup\<close> stores the Pickup before it transitions any donation. When the
  loop has gone through the donations \<open>pre\<close> and the transition of the next donation \<open>did\<close>
  fails, the endpoint raises that error and the state it leaves is the state reached after
  \<open>pre\<close>, with whatever the failed call has left in the state machine's repository (nothing,
  unless it was the audit entry that was refused): the Pickup is stored, and every donation
  of \<open>pre\<close> carries the pickup id and is in state \<^verbatim>\<open>pickup_scheduled\<close>. Nothing is rolled
  back.
\<close>

theorem plan_pickup_not_atomic:
  assumes route: "plan_route_local (repo st) volunteer_id (pre @ did # post) = Inr ordered"
    and pre: "pickup_loop pid volunteer_id pre
        (st\<lparr>repo := add_pickup
           \<lparr>pk_id = pid, pk_volunteer_id = Some volunteer_id,
            pk_donation_ids = pre @ did # post, pk_route_order = ordered,
            pk_scheduled_for = Some scheduled_for, pk_status = ''scheduled''\<rparr> (repo st)\<rparr>)
        = (Inr u, st2)"
    and fail: "fst (transition_state (sm_repo st2) did PICKUP_SCHEDULED (Some volunteer_id)
        (Some (''pickup '' @ pid @ '' planned''))) = Inl e"
    and st3: "st3 = st2\<lparr>sm_repo := snd (transition_state (sm_repo st2) did PICKUP_SCHEDULED
        (Some volunteer_id) (Some (''pickup '' @ pid @ '' planned'')))\<rparr>"
  shows "plan_pickup st pid scheduled_for volunteer_id (pre @ did # post) = (Inl e, st3)
    \<and> (e \<noteq> ValidationError \<longrightarrow> st3 = st2)
    \<and> get_pickup (repo st3) pid =
        Some \<lparr>pk_id = pid, pk_volunteer_id = Some volunteer_id,
              pk_donation_ids = pre @ did # post, pk_route_order = ordered,
              pk_scheduled_for = Some scheduled_for, pk_status = ''scheduled''\<rparr>
    \<and> (\<forall>j\<in>set pre. pickup_applied pid st3 j)"
proof -
  let ?p = "\<lparr>pk_id = pid, pk_volunteer_id = Some volunteer_id,
            pk_donation_ids = pre @ did # post, pk_route_order = ordered,
            pk_scheduled_for = Some scheduled_for, pk_status = ''scheduled''\<rparr>"
  let ?st1 = "st\<lparr>repo := add_pickup ?p (repo st)\<rparr>"
  have "get_donation (repo st) did \<noteq> None"
    using plan_route_local_found [OF route, of did] by simp
  then have "did \<in> set (map don_id (donations (repo st)))"
    using dict_get_None [of don_id "donations (repo st)" did] by (simp add: get_donation_def)
  moreover have "map don_id (donations (repo st2)) = map don_id (donations (repo ?st1))"
    using pickup_loop_keys [of pid volunteer_id pre ?st1] pre by simp
  ultimately have "did \<in> set (map don_id (donations (repo st2)))"
    by (simp add: add_pickup_def)
  then obtain d where d: "get_donation (repo st2) did = Some d"
    using dict_get_None [of don_id "donations (repo st2)" did]
    by (cases "get_donation (repo st2) did") (auto simp: get_donation_def)
  obtain out sm1 where t: "transition_state (sm_repo st2) did PICKUP_SCHEDULED
        (Some volunteer_id) (Some (''pickup '' @ pid @ '' planned'')) = (out, sm1)"
    by (cases "transition_state (sm_repo st2) did PICKUP_SCHEDULED
        (Some volunteer_id) (Some (''pickup '' @ pid @ '' planned''))")
  with fail have out: "out = Inl e" by simp
  have s3: "st3 = st2\<lparr>sm_repo := sm1\<rparr>"
    using st3 t by simp
  have step: "pickup_loop pid volunteer_id (did # post) st2 = (Inl e, st3)"
    using t out s3 by (simp add: pickup_loop_step [OF d] del: pickup_loop.simps(2))
  have loop: "pickup_loop pid volunteer_id (pre @ did # post) ?st1 = (Inl e, st3)"
    using pre step by (simp add: pickup_loop_append)
  have g1: "plan_pickup st pid scheduled_for volunteer_id (pre @ did # post) = (Inl e, st3)"
    using route loop by (simp add: plan_pickup_def Let_def)
  have g2: "st3 = st2" if "e \<noteq> ValidationError"
    using transition_state_fails_unchanged_unless_validation [OF fail that] st3 by simp
  have "pickups (repo st2) = pickups (repo ?st1)"
    using pickup_loop_pickups [of pid volunteer_id pre ?st1] pre by simp
  then have g3: "get_pickup (repo st3) pid = Some ?p"
    using dict_get_put_same [of pk_id ?p "pickups (repo st)"]
    by (simp add: get_pickup_def add_pickup_def s3)
  have g4: "\<forall>j\<in>set pre. pickup_applied pid st3 j"
  proof
    fix j assume "j \<in> set pre"
    with pickup_loop_applied [OF pre] have "pickup_applied pid st2 j" by blast
    from pickup_applied_transition [OF this, of did "Some volunteer_id"
        "Some (''pickup '' @ pid @ '' planned'')"] st3
    show "pickup_applied pid st3 j" by simp
  qed
  show ?thesis using g1 g2 g3 g4 by blast
qed

lemmas pickup_defs = plan_pickup_def plan_route_local_def get_user_def get_donation_def
  add_pickup_def get_pickup_def pickup_applied_def update_donation_def dict_has_def
  transition_state_def sm_get_donation_def sm_update_donation_def sm_add_audit_log_def
  new_AuditLogEntry_def validate_role_def role_of_value_def actor_role_of_def sm_get_user_def
  truthy_point lat_lon_point haversine_same_point Let_def
  demo_app_pickup_def demo_pickup_def demo_donation2_def demo_repo_def demo_donation_def
  demo_volunteer_def demo_recipient_def demo_sm_repo_def demo_sm_donation_def

lemma demo_route:
  "route_loop [] (JNum 14, JNum 121) [(JNum 14, JNum 121), (JNum 14, JNum 121)]
     = Inr [(JNum 14, JNum 121), (JNum 14, JNum 121)]"
  by (simp add: route_loop.simps haversine_same_point Let_def)

theorem plan_pickup_not_atomic_witness:
  "plan_route_local (repo demo_app_pickup) ''v1'' ([''d1''] @ ''d2'' # [])
     = Inr [(JNum 14, JNum 121), (JNum 14, JNum 121)]
   \<and> fst (pickup_loop ''p1'' ''v1'' [''d1'']
       (demo_app_pickup\<lparr>repo := add_pickup demo_pickup (repo demo_app_pickup)\<rparr>)) = Inr ()
   \<and> fst (transition_state
       (sm_repo (snd (pickup_loop ''p1'' ''v1'' [''d1'']
          (demo_app_pickup\<lparr>repo := add_pickup demo_pickup (repo demo_app_pickup)\<rparr>))))
       ''d2'' PICKUP_SCHEDULED (Some ''v1'') (Some (''pickup '' @ ''p1'' @ '' planned'')))
     = Inl DonationNotFound
   \<and> DonationNotFound \<noteq> ValidationError
   \<and> plan_pickup demo_app_pickup ''p1'' 30 ''v1'' ([''d1''] @ ''d2'' # [])
     = (Inl DonationNotFound, snd (pickup_loop ''p1'' ''v1'' [''d1'']
          (demo_app_pickup\<lparr>repo := add_pickup demo_pickup (repo demo_app_pickup)\<rparr>)))
   \<and> get_pickup (repo (snd (plan_pickup demo_app_pickup ''p1'' 30 ''v1''
        ([''d1''] @ ''d2'' # [])))) ''p1'' = Some demo_pickup
   \<and> pickup_applied ''p1'' (snd (plan_pickup demo_app_pickup ''p1'' 30 ''v1''
        ([''d1''] @ ''d2'' # []))) ''d1''"
proof -
  let ?st1 = "demo_app_pickup\<lparr>repo := add_pickup demo_pickup (repo demo_app_pickup)\<rparr>"
  let ?st2 = "snd (pickup_loop ''p1'' ''v1'' [''d1''] ?st1)"
  let ?st3 = "?st2\<lparr>sm_repo := snd (transition_state (sm_repo ?st2) ''d2'' PICKUP_SCHEDULED
        (Some ''v1'') (Some (''pickup '' @ ''p1'' @ '' planned'')))\<rparr>"
  have h1: "plan_route_local (repo demo_app_pickup) ''v1'' ([''d1''] @ ''d2'' # [])
     = Inr [(JNum 14, JNum 121), (JNum 14, JNum 121)]"
    by (simp add: pickup_defs demo_route)
  have f: "fst (pickup_loop ''p1'' ''v1'' [''d1''] ?st1) = Inr ()"
    by (simp add: pickup_defs)
  have p: "demo_pickup = \<lparr>pk_id = ''p1'', pk_volunteer_id = Some ''v1'',
            pk_donation_ids = [''d1''] @ ''d2'' # [],
            pk_route_order = [(JNum 14, JNum 121), (JNum 14, JNum 121)],
            pk_scheduled_for = Some 30, pk_status = ''scheduled''\<rparr>"
    by (simp add: demo_pickup_def)
  have h2: "pickup_loop ''p1'' ''v1'' [''d1'']
        (demo_app_pickup\<lparr>repo := add_pickup
           \<lparr>pk_id = ''p1'', pk_volunteer_id = Some ''v1'',
            pk_donation_ids = [''d1''] @ ''d2'' # [],
            pk_route_order = [(JNum 14, JNum 121), (JNum 14, JNum 121)],
            pk_scheduled_for = Some 30, pk_status = ''scheduled''\<rparr> (repo demo_app_pickup)\<rparr>)
        = (Inr (), ?st2)"
    using f unfolding p [symmetric] by (simp add: prod_eq_iff)
  have h3: "fst (transition_state (sm_repo ?st2) ''d2'' PICKUP_SCHEDULED (Some ''v1'')
        (Some (''pickup '' @ ''p1'' @ '' planned''))) = Inl DonationNotFound"
    by (simp add: pickup_defs)
  have h4: "?st3 = ?st3" by (rule refl)
  have ne: "DonationNotFound \<noteq> ValidationError" by simp
  note result = plan_pickup_not_atomic [OF h1 h2 h3 h4]
  from result ne have eq: "?st3 = ?st2" by blast
  from result have g1: "plan_pickup demo_app_pickup ''p1'' 30 ''v1'' ([''d1''] @ ''d2'' # [])
      = (Inl DonationNotFound, ?st3)"
    by blast
  from result have g3: "get_pickup (repo ?st3) ''p1'' = Some demo_pickup"
    unfolding p [symmetric] by blast
  from result have "\<forall>j\<in>set [''d1'']. pickup_applied ''p1'' ?st3 j"
    by blast
  then have g4: "pickup_applied ''p1'' ?st3 ''d1''"
    by simp
  show ?thesis
    using g1 [unfolded eq] g3 [unfolded eq] g4 [unfolded eq] h1 f h3 ne
    by simp
qed

end
